theory Spec2Isabelle
  imports Main "HOL-Library.Word" "HOL-Library.Sublist"
begin

unbundle bit_operations_syntax

section \<open>Go integers, errors and panics\<close>

text \<open>
  Go's \<open>int\<close> and \<open>time.Duration\<close> are 64-bit two's complement integers. They are
  modelled as \<open>int\<close>, and every addition, multiplication and division of the source goes
  through \<open>wrap64\<close>, which brings a mathematical result back into the 64-bit range
  the way the machine does.
\<close>

definition wrap64 :: "int \<Rightarrow> int" where
  "wrap64 x = (x + 2 ^ 63) mod 2 ^ 64 - 2 ^ 63"

text \<open>Go's \<open>/\<close> and \<open>%\<close> on integers truncate towards zero; the divisor is not zero here.\<close>

definition go_quo :: "int \<Rightarrow> int \<Rightarrow> int" where
  "go_quo a b = wrap64 (if (a < 0) = (b < 0) then \<bar>a\<bar> div \<bar>b\<bar> else - (\<bar>a\<bar> div \<bar>b\<bar>))"

definition go_rem :: "int \<Rightarrow> int \<Rightarrow> int" where
  "go_rem a b = (if a < 0 then - (\<bar>a\<bar> mod \<bar>b\<bar>) else \<bar>a\<bar> mod \<bar>b\<bar>)"

text \<open>The package's sentinel errors (errors.go); \<open>ErrRegexp\<close> stands for the syntax
  errors that the regular-expression library reports. A Go \<open>error\<close> result is an
  \<open>error option\<close>, \<open>None\<close> being \<open>nil\<close>.\<close>

datatype error =
    ErrFlagNotFound
  | ErrInvalidOperator
  | ErrInvalidRollout
  | ErrInvalidCondition
  | ErrRolloutKeyMissing
  | ErrRegexp string

text \<open>Run-time panics of the Go language that the modelled code can reach.\<close>

datatype panic = PanicDivideByZero | PanicIndexOutOfRange int

section \<open>Dynamic values and their rendering\<close>

text \<open>
  A context attribute or a condition value is an \<open>interface{}\<close>. The model has the
  dynamic types that the evaluator distinguishes (the cases of \<open>toFloat64\<close> and of
  \<open>evaluateIn\<close>), \<open>nil\<close>, booleans, and \<open>VOther\<close> for a value of any other dynamic
  type, which carries its \<open>fmt.Sprint\<close> rendering. The type parameter \<open>'f\<close> is the
  platform's \<open>float64\<close>; a \<open>float32\<close> is held by its exact \<open>float64\<close> conversion.
\<close>

datatype 'f gvalue =
    VNil
  | VBool bool
  | VString string
  | VInt int
  | VInt64 int
  | VInt32 int
  | VFloat64 'f
  | VFloat32 'f
  | VSlice "'f gvalue list"
  | VStrings "string list"
  | VOther string

text \<open>
  What the code takes from the Go standard library and from the hardware is a parameter
  of the model: the regular-expression engine, the parser and the formatter of floating
  point numbers, and the comparison of \<open>float64\<close> values.
\<close>

record 'f platform =
  regexp_MatchString :: "string \<Rightarrow> string \<Rightarrow> bool \<times> error option"
  strconv_ParseFloat :: "string \<Rightarrow> 'f option"
  float64_of_int :: "int \<Rightarrow> 'f"
  float64_less :: "'f \<Rightarrow> 'f \<Rightarrow> bool"
  float64_le :: "'f \<Rightarrow> 'f \<Rightarrow> bool"
  fmt_float :: "nat \<Rightarrow> 'f \<Rightarrow> string"

definition digit_char :: "nat \<Rightarrow> char" where
  "digit_char d = ''0123456789'' ! (d mod 10)"

fun digits :: "nat \<Rightarrow> string" where
  "digits n = (if n < 10 then [digit_char n] else digits (n div 10) @ [digit_char n])"

declare digits.simps [simp del]

definition itoa :: "int \<Rightarrow> string" where
  "itoa i = (if i < 0 then CHR ''-'' # digits (nat (- i)) else digits (nat i))"

fun join_space :: "string list \<Rightarrow> string" where
  "join_space [] = []"
| "join_space [s] = s"
| "join_space (s # t # ss) = s @ '' '' @ join_space (t # ss)"

text \<open>\<open>fmt.Sprint\<close> of one operand, that is the \<open>%v\<close> verb.\<close>

fun Sprint :: "'f platform \<Rightarrow> 'f gvalue \<Rightarrow> string" where
  "Sprint P VNil = ''<nil>''"
| "Sprint P (VBool b) = (if b then ''true'' else ''false'')"
| "Sprint P (VString s) = s"
| "Sprint P (VInt i) = itoa i"
| "Sprint P (VInt64 i) = itoa i"
| "Sprint P (VInt32 i) = itoa i"
| "Sprint P (VFloat64 x) = fmt_float P 64 x"
| "Sprint P (VFloat32 x) = fmt_float P 32 x"
| "Sprint P (VSlice vs) = ''['' @ join_space (map (Sprint P) vs) @ '']''"
| "Sprint P (VStrings ss) = ''['' @ join_space ss @ '']''"
| "Sprint P (VOther s) = s"

section \<open>internal/hash/fnv.go\<close>

text \<open>\<open>hash/fnv\<close>'s \<open>New32a\<close>, \<open>Write\<close> and \<open>Sum32\<close>: the 32-bit FNV-1a fingerprint.
  A \<open>uint32\<close> is a \<open>32 word\<close>, whose multiplication wraps.\<close>

definition offset32 :: "32 word" where
  "offset32 = 2166136261"

definition prime32 :: "32 word" where
  "prime32 = 16777619"

fun fnv32a_Write :: "32 word \<Rightarrow> string \<Rightarrow> 32 word" where
  "fnv32a_Write h [] = h"
| "fnv32a_Write h (c # cs) = fnv32a_Write ((h XOR of_char c) * prime32) cs"

definition Sum32 :: "string \<Rightarrow> 32 word" where
  "Sum32 s = fnv32a_Write offset32 s"

definition FNVHasher_Hash :: "string \<Rightarrow> int" where
  "FNVHasher_Hash s = uint (Sum32 s mod 100)"

section \<open>context.go, operator.go, condition.go\<close>

type_synonym 'f Context = "string \<rightharpoonup> 'f gvalue"

definition Context_Get :: "'f Context \<Rightarrow> string \<Rightarrow> 'f gvalue option" where
  "Context_Get c key = c key"

type_synonym Operator = string

definition OperatorEqual :: Operator where "OperatorEqual = ''==''"
definition OperatorNotEqual :: Operator where "OperatorNotEqual = ''!=''"
definition OperatorIn :: Operator where "OperatorIn = ''in''"
definition OperatorNotIn :: Operator where "OperatorNotIn = ''not_in''"
definition OperatorGreaterThan :: Operator where "OperatorGreaterThan = ''>''"
definition OperatorGreaterThanOrEqual :: Operator where "OperatorGreaterThanOrEqual = ''>=''"
definition OperatorLessThan :: Operator where "OperatorLessThan = ''<''"
definition OperatorLessThanOrEqual :: Operator where "OperatorLessThanOrEqual = ''<=''"
definition OperatorContains :: Operator where "OperatorContains = ''contains''"
definition OperatorStartsWith :: Operator where "OperatorStartsWith = ''starts_with''"
definition OperatorEndsWith :: Operator where "OperatorEndsWith = ''ends_with''"
definition OperatorRegex :: Operator where "OperatorRegex = ''regex''"

definition IsValid :: "Operator \<Rightarrow> bool" where
  "IsValid o' = (o' \<in> set [OperatorEqual, OperatorNotEqual, OperatorIn, OperatorNotIn,
      OperatorGreaterThan, OperatorGreaterThanOrEqual,
      OperatorLessThan, OperatorLessThanOrEqual,
      OperatorContains, OperatorStartsWith, OperatorEndsWith,
      OperatorRegex])"

record 'f Condition =
  Attribute :: string
  Operator :: Operator
  Value :: "'f gvalue"
  Negate :: bool

definition Condition_Validate :: "'f Condition \<Rightarrow> error option" where
  "Condition_Validate c =
     (if Attribute c = [] then Some ErrInvalidCondition
      else if \<not> IsValid (Operator c) then Some ErrInvalidOperator
      else None)"

section \<open>The condition evaluator\<close>

text \<open>Go compares strings bytewise in lexicographic order.\<close>

fun string_less :: "string \<Rightarrow> string \<Rightarrow> bool" where
  "string_less [] [] = False"
| "string_less [] (y # ys) = True"
| "string_less (x # xs) [] = False"
| "string_less (x # xs) (y # ys) =
     (if x = y then string_less xs ys else (of_char x :: nat) < of_char y)"

definition string_le :: "string \<Rightarrow> string \<Rightarrow> bool" where
  "string_le a b = (a = b \<or> string_less a b)"

definition applyNegate :: "bool \<Rightarrow> bool \<Rightarrow> bool" where
  "applyNegate result negate = (if negate then \<not> result else result)"

definition evaluateEqual :: "'f platform \<Rightarrow> 'f gvalue \<Rightarrow> 'f gvalue \<Rightarrow> bool" where
  "evaluateEqual P ctxValue condValue = (Sprint P ctxValue = Sprint P condValue)"

definition evaluateIn :: "'f platform \<Rightarrow> 'f gvalue \<Rightarrow> 'f gvalue \<Rightarrow> bool" where
  "evaluateIn P ctxValue condValue =
     (let ctxStr = Sprint P ctxValue in
      case condValue of
        VSlice v \<Rightarrow> list_ex (\<lambda>item. Sprint P item = ctxStr) v
      | VStrings v \<Rightarrow> list_ex (\<lambda>item. item = ctxStr) v
      | _ \<Rightarrow> evaluateEqual P ctxValue condValue)"

text \<open>\<open>toFloat64\<close> returns a number and an error; its callers only test the error
  for \<open>nil\<close>, so the failure is \<open>None\<close>.\<close>

fun toFloat64 :: "'f platform \<Rightarrow> 'f gvalue \<Rightarrow> 'f option" where
  "toFloat64 P (VFloat64 v) = Some v"
| "toFloat64 P (VFloat32 v) = Some v"
| "toFloat64 P (VInt v) = Some (float64_of_int P v)"
| "toFloat64 P (VInt64 v) = Some (float64_of_int P v)"
| "toFloat64 P (VInt32 v) = Some (float64_of_int P v)"
| "toFloat64 P (VString v) = strconv_ParseFloat P v"
| "toFloat64 P _ = None"

definition evaluateGreaterThan :: "'f platform \<Rightarrow> 'f gvalue \<Rightarrow> 'f gvalue \<Rightarrow> bool \<Rightarrow> bool" where
  "evaluateGreaterThan P ctxValue condValue orEqual =
     (case (toFloat64 P ctxValue, toFloat64 P condValue) of
        (Some ctxNum, Some condNum) \<Rightarrow>
          (if orEqual then float64_le P condNum ctxNum else float64_less P condNum ctxNum)
      | _ \<Rightarrow>
          (let ctxStr = Sprint P ctxValue; condStr = Sprint P condValue in
           if orEqual then string_le condStr ctxStr else string_less condStr ctxStr))"

definition evaluateLessThan :: "'f platform \<Rightarrow> 'f gvalue \<Rightarrow> 'f gvalue \<Rightarrow> bool \<Rightarrow> bool" where
  "evaluateLessThan P ctxValue condValue orEqual =
     (case (toFloat64 P ctxValue, toFloat64 P condValue) of
        (Some ctxNum, Some condNum) \<Rightarrow>
          (if orEqual then float64_le P ctxNum condNum else float64_less P ctxNum condNum)
      | _ \<Rightarrow>
          (let ctxStr = Sprint P ctxValue; condStr = Sprint P condValue in
           if orEqual then string_le ctxStr condStr else string_less ctxStr condStr))"

definition evaluateContains :: "'f platform \<Rightarrow> 'f gvalue \<Rightarrow> 'f gvalue \<Rightarrow> bool" where
  "evaluateContains P ctxValue condValue = sublist (Sprint P condValue) (Sprint P ctxValue)"

definition evaluateStartsWith :: "'f platform \<Rightarrow> 'f gvalue \<Rightarrow> 'f gvalue \<Rightarrow> bool" where
  "evaluateStartsWith P ctxValue condValue = prefix (Sprint P condValue) (Sprint P ctxValue)"

definition evaluateEndsWith :: "'f platform \<Rightarrow> 'f gvalue \<Rightarrow> 'f gvalue \<Rightarrow> bool" where
  "evaluateEndsWith P ctxValue condValue = suffix (Sprint P condValue) (Sprint P ctxValue)"

definition evaluateRegex :: "'f platform \<Rightarrow> 'f gvalue \<Rightarrow> 'f gvalue \<Rightarrow> bool \<times> error option" where
  "evaluateRegex P ctxValue condValue =
     (let ctxStr = Sprint P ctxValue; pattern = Sprint P condValue in
      case regexp_MatchString P pattern ctxStr of
        (matched, Some err) \<Rightarrow> (False, Some err)
      | (matched, None) \<Rightarrow> (matched, None))"

definition evaluateOperator ::
  "'f platform \<Rightarrow> Operator \<Rightarrow> 'f gvalue \<Rightarrow> 'f gvalue \<Rightarrow> bool \<times> error option" where
  "evaluateOperator P op ctxValue condValue =
     (if op = OperatorEqual then (evaluateEqual P ctxValue condValue, None)
      else if op = OperatorNotEqual then (\<not> evaluateEqual P ctxValue condValue, None)
      else if op = OperatorIn then (evaluateIn P ctxValue condValue, None)
      else if op = OperatorNotIn then (\<not> evaluateIn P ctxValue condValue, None)
      else if op = OperatorGreaterThan then (evaluateGreaterThan P ctxValue condValue False, None)
      else if op = OperatorGreaterThanOrEqual then (evaluateGreaterThan P ctxValue condValue True, None)
      else if op = OperatorLessThan then (evaluateLessThan P ctxValue condValue False, None)
      else if op = OperatorLessThanOrEqual then (evaluateLessThan P ctxValue condValue True, None)
      else if op = OperatorContains then (evaluateContains P ctxValue condValue, None)
      else if op = OperatorStartsWith then (evaluateStartsWith P ctxValue condValue, None)
      else if op = OperatorEndsWith then (evaluateEndsWith P ctxValue condValue, None)
      else if op = OperatorRegex then evaluateRegex P ctxValue condValue
      else (False, Some ErrInvalidOperator))"

definition evaluate :: "'f platform \<Rightarrow> 'f Condition \<Rightarrow> 'f Context \<Rightarrow> bool \<times> error option" where
  "evaluate P condition ctx =
     (case Condition_Validate condition of
        Some err \<Rightarrow> (False, Some err)
      | None \<Rightarrow>
          (case Context_Get ctx (Attribute condition) of
             None \<Rightarrow> (applyNegate False (Negate condition), None)
           | Some v \<Rightarrow>
               (case evaluateOperator P (Operator condition) v (Value condition) of
                  (result, Some err) \<Rightarrow> (False, Some err)
                | (result, None) \<Rightarrow> (applyNegate result (Negate condition), None))))"

fun evaluateAll :: "'f platform \<Rightarrow> 'f Condition list \<Rightarrow> 'f Context \<Rightarrow> bool \<times> error option" where
  "evaluateAll P [] ctx = (True, None)"
| "evaluateAll P (cond # rest) ctx =
     (case evaluate P cond ctx of
        (match, Some err) \<Rightarrow> (False, Some err)
      | (match, None) \<Rightarrow> if \<not> match then (False, None) else evaluateAll P rest ctx)"

section \<open>Flags and their validation\<close>

record 'f Variant =
  Name :: string
  Weight :: int
  Conditions :: "'f Condition list"

record 'f Flag =
  Name :: string
  Enabled :: bool
  Rollout :: int
  RolloutKey :: string
  Conditions :: "'f Condition list"
  Variants :: "'f Variant list"
  DefaultVariant :: string

fun validate_conditions :: "'f Condition list \<Rightarrow> error option" where
  "validate_conditions [] = None"
| "validate_conditions (cond # rest) =
     (case Condition_Validate cond of
        Some err \<Rightarrow> Some err
      | None \<Rightarrow> validate_conditions rest)"

text \<open>The loop over the variants of \<open>Flag.Validate\<close>, with its accumulator
  \<open>totalWeight\<close>: an error, or the total when the loop ends.\<close>

fun validate_variants :: "int \<Rightarrow> 'f Variant list \<Rightarrow> error + int" where
  "validate_variants totalWeight [] = Inr totalWeight"
| "validate_variants totalWeight (variant # rest) =
     (if Weight variant < 0 \<or> Weight variant > 100 then Inl ErrInvalidRollout
      else (case validate_conditions (Variant.Conditions variant) of
              Some err \<Rightarrow> Inl err
            | None \<Rightarrow> validate_variants (wrap64 (totalWeight + Weight variant)) rest))"

definition Flag_Validate :: "'f Flag \<Rightarrow> error option" where
  "Flag_Validate f =
     (if Flag.Name f = [] then Some ErrInvalidCondition
      else if Rollout f < 0 \<or> Rollout f > 100 then Some ErrInvalidRollout
      else (case validate_conditions (Flag.Conditions f) of
              Some err \<Rightarrow> Some err
            | None \<Rightarrow>
                (case validate_variants 0 (Variants f) of
                   Inl err \<Rightarrow> Some err
                 | Inr totalWeight \<Rightarrow>
                     if length (Variants f) > 0 \<and> totalWeight > 100 then Some ErrInvalidRollout
                     else None)))"

definition HasVariants :: "'f Flag \<Rightarrow> bool" where
  "HasVariants f = (length (Variants f) > 0)"

definition GetRolloutKey :: "'f Flag \<Rightarrow> string" where
  "GetRolloutKey f = (if RolloutKey f \<noteq> [] then RolloutKey f else ''user_id'')"

section \<open>rollout.go: the deterministic-hash strategy\<close>

record DefaultRolloutStrategy =
  hasher :: "string \<Rightarrow> int"

definition NewDefaultRolloutStrategy :: "(string \<Rightarrow> int) option \<Rightarrow> DefaultRolloutStrategy" where
  "NewDefaultRolloutStrategy h =
     (case h of None \<Rightarrow> \<lparr>hasher = FNVHasher_Hash\<rparr> | Some h' \<Rightarrow> \<lparr>hasher = h'\<rparr>)"

definition DefaultRolloutStrategy_ShouldRollout ::
  "'f platform \<Rightarrow> DefaultRolloutStrategy \<Rightarrow> 'f Flag \<Rightarrow> 'f Context \<Rightarrow> bool \<times> error option" where
  "DefaultRolloutStrategy_ShouldRollout P r flag ctx =
     (if Rollout flag \<ge> 100 then (True, None)
      else if Rollout flag \<le> 0 then (False, None)
      else (case Context_Get ctx (GetRolloutKey flag) of
              None \<Rightarrow> (False, None)
            | Some keyValue \<Rightarrow>
                (let hashKey = Flag.Name flag @ '':'' @ Sprint P keyValue;
                     hashValue = hasher r hashKey
                 in (hashValue < Rollout flag, None))))"

text \<open>The loop of \<open>GetVariant\<close> over the variants, with its accumulator
  \<open>cumulative\<close>: the selected name, or \<open>None\<close> when the loop ends without a return.\<close>

fun select_variant :: "int \<Rightarrow> int \<Rightarrow> 'f Variant list \<Rightarrow> string option" where
  "select_variant hashValue cumulative [] = None"
| "select_variant hashValue cumulative (variant # rest) =
     (let cumulative' = wrap64 (cumulative + Weight variant) in
      if hashValue < cumulative' then Some (Variant.Name variant)
      else select_variant hashValue cumulative' rest)"

definition DefaultRolloutStrategy_GetVariant ::
  "'f platform \<Rightarrow> DefaultRolloutStrategy \<Rightarrow> 'f Flag \<Rightarrow> 'f Context \<Rightarrow> string \<times> error option" where
  "DefaultRolloutStrategy_GetVariant P r flag ctx =
     (if \<not> HasVariants flag then (DefaultVariant flag, None)
      else (case Context_Get ctx (GetRolloutKey flag) of
              None \<Rightarrow> (DefaultVariant flag, None)
            | Some keyValue \<Rightarrow>
                (let hashKey = Flag.Name flag @ '':variant:'' @ Sprint P keyValue;
                     hashValue = hasher r hashKey
                 in (case select_variant hashValue 0 (Variants flag) of
                       Some name \<Rightarrow> (name, None)
                     | None \<Rightarrow> (DefaultVariant flag, None)))))"

section \<open>The switchback strategy\<close>

text \<open>
  A \<open>time.Time\<close> is the number of nanoseconds since Go's zero time, a \<open>time.Duration\<close> a
  64-bit count of nanoseconds. \<open>Time.Sub\<close> saturates at the least and the greatest
  duration, \<open>Time.Truncate\<close> rounds down to a multiple of the duration.
\<close>

type_synonym Time = int

definition Minute :: int where "Minute = 60000000000"
definition Hour :: int where "Hour = 3600000000000"
definition minDuration :: int where "minDuration = - (2 ^ 63)"
definition maxDuration :: int where "maxDuration = 2 ^ 63 - 1"

definition Time_Sub :: "Time \<Rightarrow> Time \<Rightarrow> int" where
  "Time_Sub t u =
     (if t - u < minDuration then minDuration
      else if t - u > maxDuration then maxDuration
      else t - u)"

definition Time_Truncate :: "Time \<Rightarrow> int \<Rightarrow> Time" where
  "Time_Truncate t d = (if d \<le> 0 then t else t - t mod d)"

text \<open>The field \<open>timeProvider\<close> is a function that reads a clock. One call of
  \<open>GetVariant\<close> reads it twice; \<open>timeProvider s k\<close> is what the reading number \<open>k\<close>
  of the modelled call returns.\<close>

record SwitchbackRolloutStrategy =
  baseStrategy :: DefaultRolloutStrategy
  intervalMinutes :: int
  startTime :: Time
  swapDaily :: bool
  timeProvider :: "nat \<Rightarrow> Time"

datatype SwitchbackOption =
    WithIntervalMinutes int
  | WithStartTime Time
  | WithDailySwap bool

fun apply_SwitchbackOption :: "SwitchbackRolloutStrategy \<Rightarrow> SwitchbackOption \<Rightarrow> SwitchbackRolloutStrategy" where
  "apply_SwitchbackOption s (WithIntervalMinutes minutes) = s\<lparr>intervalMinutes := minutes\<rparr>"
| "apply_SwitchbackOption s (WithStartTime t) = s\<lparr>startTime := t\<rparr>"
| "apply_SwitchbackOption s (WithDailySwap enabled) = s\<lparr>swapDaily := enabled\<rparr>"

text \<open>\<open>time_Now\<close> is the system clock, \<open>now\<close> its reading when the strategy is built.\<close>

definition NewSwitchbackRolloutStrategy ::
  "(nat \<Rightarrow> Time) \<Rightarrow> Time \<Rightarrow> SwitchbackOption list \<Rightarrow> SwitchbackRolloutStrategy" where
  "NewSwitchbackRolloutStrategy time_Now now opts =
     foldl apply_SwitchbackOption
       \<lparr>baseStrategy = NewDefaultRolloutStrategy (Some FNVHasher_Hash),
        intervalMinutes = 30,
        startTime = Time_Truncate now (24 * Hour),
        swapDaily = False,
        timeProvider = time_Now\<rparr> opts"

definition GetCurrentInterval :: "SwitchbackRolloutStrategy \<Rightarrow> nat \<Rightarrow> panic + int" where
  "GetCurrentInterval s k =
     (let now = timeProvider s k;
          elapsed = Time_Sub now (startTime s);
          intervalDuration = wrap64 (intervalMinutes s * Minute)
      in if intervalDuration = 0 then Inl PanicDivideByZero
         else Inr (go_quo elapsed intervalDuration))"

definition GetCurrentDay :: "SwitchbackRolloutStrategy \<Rightarrow> nat \<Rightarrow> int" where
  "GetCurrentDay s k =
     (let now = timeProvider s k;
          elapsed = Time_Sub now (startTime s)
      in go_quo elapsed (24 * Hour))"

definition SwitchbackRolloutStrategy_ShouldRollout ::
  "SwitchbackRolloutStrategy \<Rightarrow> 'f Flag \<Rightarrow> 'f Context \<Rightarrow> bool \<times> error option" where
  "SwitchbackRolloutStrategy_ShouldRollout s flag ctx = (True, None)"

definition SwitchbackRolloutStrategy_GetVariant ::
  "SwitchbackRolloutStrategy \<Rightarrow> 'f Flag \<Rightarrow> 'f Context \<Rightarrow> panic + string \<times> error option" where
  "SwitchbackRolloutStrategy_GetVariant s flag ctx =
     (if \<not> HasVariants flag then Inr (DefaultVariant flag, None)
      else (case GetCurrentInterval s 0 of
              Inl p \<Rightarrow> Inl p
            | Inr intervalNum \<Rightarrow>
                (let dayNum = GetCurrentDay s 1;
                     numVariants = int (length (Variants flag))
                 in if numVariants = 0 then Inr (DefaultVariant flag, None)
                    else (let variantIndex = go_rem intervalNum numVariants;
                              variantIndex' =
                                (if swapDaily s \<and> go_rem dayNum 2 = 1
                                 then wrap64 (wrap64 (numVariants - 1) - variantIndex)
                                 else variantIndex)
                          in if variantIndex' < 0 \<or> variantIndex' \<ge> numVariants
                             then Inl (PanicIndexOutOfRange variantIndex')
                             else Inr (Variant.Name (Variants flag ! nat variantIndex'), None)))))"

section \<open>store.go\<close>

text \<open>The interface \<open>RolloutStrategy\<close> has the two implementations of the package.\<close>

datatype RolloutStrategy =
    DefaultStrategy DefaultRolloutStrategy
  | SwitchbackStrategy SwitchbackRolloutStrategy

fun ShouldRollout :: "'f platform \<Rightarrow> RolloutStrategy \<Rightarrow> 'f Flag \<Rightarrow> 'f Context \<Rightarrow> bool \<times> error option" where
  "ShouldRollout P (DefaultStrategy r) flag ctx = DefaultRolloutStrategy_ShouldRollout P r flag ctx"
| "ShouldRollout P (SwitchbackStrategy s) flag ctx = SwitchbackRolloutStrategy_ShouldRollout s flag ctx"

fun GetVariant :: "'f platform \<Rightarrow> RolloutStrategy \<Rightarrow> 'f Flag \<Rightarrow> 'f Context \<Rightarrow> panic + string \<times> error option" where
  "GetVariant P (DefaultStrategy r) flag ctx = Inr (DefaultRolloutStrategy_GetVariant P r flag ctx)"
| "GetVariant P (SwitchbackStrategy s) flag ctx = SwitchbackRolloutStrategy_GetVariant s flag ctx"

text \<open>The store: the flag map and the strategy. The evaluator has no state, and the
  mutex orders concurrent calls; the model is of one call at a time. A stored
  \<open>*Flag\<close> is held by its value: no operation of the package writes to a flag, and
  the pointer given to \<open>AddFlag\<close> is not \<open>nil\<close>. \<open>GetVariant\<close> is the method of the
  interface \<open>RolloutStrategy\<close>, \<open>Store_GetVariant\<close> the method of the store.\<close>

record 'f Store =
  flags :: "string \<rightharpoonup> 'f Flag"
  rolloutStrategy :: RolloutStrategy

datatype StoreOption = WithSwitchback "SwitchbackOption list"

fun apply_StoreOption :: "(nat \<Rightarrow> Time) \<Rightarrow> Time \<Rightarrow> 'f Store \<Rightarrow> StoreOption \<Rightarrow> 'f Store" where
  "apply_StoreOption time_Now now store (WithSwitchback opts) =
     store\<lparr>rolloutStrategy := SwitchbackStrategy (NewSwitchbackRolloutStrategy time_Now now opts)\<rparr>"

definition NewStore :: "(nat \<Rightarrow> Time) \<Rightarrow> Time \<Rightarrow> StoreOption list \<Rightarrow> 'f Store" where
  "NewStore time_Now now opts =
     foldl (apply_StoreOption time_Now now)
       \<lparr>flags = Map.empty,
        rolloutStrategy = DefaultStrategy (NewDefaultRolloutStrategy None)\<rparr> opts"

definition AddFlag :: "'f Store \<Rightarrow> 'f Flag \<Rightarrow> 'f Store \<times> error option" where
  "AddFlag s flag =
     (case Flag_Validate flag of
        Some err \<Rightarrow> (s, Some err)
      | None \<Rightarrow> (s\<lparr>flags := (flags s)(Flag.Name flag \<mapsto> flag)\<rparr>, None))"

fun AddFlags :: "'f Store \<Rightarrow> 'f Flag list \<Rightarrow> 'f Store \<times> error option" where
  "AddFlags s [] = (s, None)"
| "AddFlags s (flag # rest) =
     (case AddFlag s flag of
        (s', Some err) \<Rightarrow> (s', Some err)
      | (s', None) \<Rightarrow> AddFlags s' rest)"

definition RemoveFlag :: "'f Store \<Rightarrow> string \<Rightarrow> 'f Store" where
  "RemoveFlag s name = s\<lparr>flags := (flags s)(name := None)\<rparr>"

definition GetFlag :: "'f Store \<Rightarrow> string \<Rightarrow> error + 'f Flag" where
  "GetFlag s name = (case flags s name of None \<Rightarrow> Inl ErrFlagNotFound | Some flag \<Rightarrow> Inr flag)"

definition Clear :: "'f Store \<Rightarrow> 'f Store" where
  "Clear s = s\<lparr>flags := Map.empty\<rparr>"

definition Size :: "'f Store \<Rightarrow> nat" where
  "Size s = card (dom (flags s))"

definition IsEnabledWithError ::
  "'f platform \<Rightarrow> 'f Store \<Rightarrow> string \<Rightarrow> 'f Context \<Rightarrow> bool \<times> error option" where
  "IsEnabledWithError P s name ctx =
     (case GetFlag s name of
        Inl err \<Rightarrow> (False, Some err)
      | Inr flag \<Rightarrow>
          if \<not> Enabled flag then (False, None)
          else if HasVariants flag then (False, None)
          else (case evaluateAll P (Flag.Conditions flag) ctx of
                  (match, Some err) \<Rightarrow> (False, Some err)
                | (match, None) \<Rightarrow>
                    if \<not> match then (False, None)
                    else (case ShouldRollout P (rolloutStrategy s) flag ctx of
                            (shouldRollout, Some err) \<Rightarrow> (False, Some err)
                          | (shouldRollout, None) \<Rightarrow> (shouldRollout, None))))"

definition IsEnabled :: "'f platform \<Rightarrow> 'f Store \<Rightarrow> string \<Rightarrow> 'f Context \<Rightarrow> bool" where
  "IsEnabled P s name ctx = fst (IsEnabledWithError P s name ctx)"

text \<open>The loop of \<open>GetVariantWithError\<close> that looks the selected variant up by its
  name; its last equation is the statement after the loop.\<close>

fun find_variant ::
  "'f platform \<Rightarrow> 'f Variant list \<Rightarrow> string \<Rightarrow> 'f Context \<Rightarrow> string \<Rightarrow> string \<times> bool \<times> error option" where
  "find_variant P [] variantName ctx dflt = (dflt, False, None)"
| "find_variant P (variant # rest) variantName ctx dflt =
     (if Variant.Name variant = variantName then
        (if length (Variant.Conditions variant) > 0 then
           (case evaluateAll P (Variant.Conditions variant) ctx of
              (match, Some err) \<Rightarrow> ([], False, Some err)
            | (match, None) \<Rightarrow>
                if \<not> match then (dflt, False, None)
                else (Variant.Name variant, True, None))
         else (Variant.Name variant, True, None))
      else find_variant P rest variantName ctx dflt)"

definition GetVariantWithError ::
  "'f platform \<Rightarrow> 'f Store \<Rightarrow> string \<Rightarrow> 'f Context \<Rightarrow> panic + string \<times> bool \<times> error option" where
  "GetVariantWithError P s name ctx =
     (case GetFlag s name of
        Inl err \<Rightarrow> Inr ([], False, Some err)
      | Inr flag \<Rightarrow>
          if \<not> Enabled flag then Inr (DefaultVariant flag, False, None)
          else (case evaluateAll P (Flag.Conditions flag) ctx of
                  (match, Some err) \<Rightarrow> Inr ([], False, Some err)
                | (match, None) \<Rightarrow>
                    if \<not> match then Inr (DefaultVariant flag, False, None)
                    else if \<not> HasVariants flag then
                      (case ShouldRollout P (rolloutStrategy s) flag ctx of
                         (shouldRollout, Some err) \<Rightarrow> Inr ([], False, Some err)
                       | (shouldRollout, None) \<Rightarrow>
                           if shouldRollout then Inr (''on'', True, None)
                           else Inr (''off'', False, None))
                    else (case GetVariant P (rolloutStrategy s) flag ctx of
                            Inl p \<Rightarrow> Inl p
                          | Inr (variantName, Some err) \<Rightarrow> Inr ([], False, Some err)
                          | Inr (variantName, None) \<Rightarrow>
                              Inr (find_variant P (Variants flag) variantName ctx
                                     (DefaultVariant flag)))))"

definition Store_GetVariant ::
  "'f platform \<Rightarrow> 'f Store \<Rightarrow> string \<Rightarrow> 'f Context \<Rightarrow> panic + string \<times> bool" where
  "Store_GetVariant P s name ctx =
     (case GetVariantWithError P s name ctx of
        Inl p \<Rightarrow> Inl p
      | Inr (variant, enabled, err) \<Rightarrow> Inr (variant, enabled))"

section \<open>The notions of the specification\<close>

text \<open>The hash of the specification: the 32-bit FNV-1a fingerprint, computed on natural
  numbers with the reduction modulo \<open>2 ^ 32\<close> written out, then reduced modulo 100.\<close>

definition fnv1a32_step :: "nat \<Rightarrow> char \<Rightarrow> nat" where
  "fnv1a32_step h c = ((h XOR of_char c) * 16777619) mod 2 ^ 32"

definition fnv1a32 :: "string \<Rightarrow> nat" where
  "fnv1a32 s = foldl fnv1a32_step 2166136261 s"

definition bucket :: "string \<Rightarrow> int" where
  "bucket s = int (fnv1a32 s mod 100)"

text \<open>The cumulative weight of the variants up to and including position \<open>i\<close>, as a
  64-bit sum that starts from \<open>c\<close>.\<close>

definition cumulative_from :: "int \<Rightarrow> 'f Variant list \<Rightarrow> nat \<Rightarrow> int" where
  "cumulative_from c vs i = foldl (\<lambda>a v. wrap64 (a + Weight v)) c (take (Suc i) vs)"

definition cumulative_weight :: "'f Variant list \<Rightarrow> nat \<Rightarrow> int" where
  "cumulative_weight vs i = cumulative_from 0 vs i"

text \<open>The validity of conditions, variants and flags, in the words of the data model.\<close>

definition valid_condition :: "'f Condition \<Rightarrow> bool" where
  "valid_condition c = (Attribute c \<noteq> [] \<and> IsValid (Operator c))"

definition valid_variant :: "'f Variant \<Rightarrow> bool" where
  "valid_variant v =
     (0 \<le> Weight v \<and> Weight v \<le> 100 \<and> list_all valid_condition (Variant.Conditions v))"

definition valid_flag :: "'f Flag \<Rightarrow> bool" where
  "valid_flag f =
     (Flag.Name f \<noteq> [] \<and> 0 \<le> Rollout f \<and> Rollout f \<le> 100 \<and>
      list_all valid_condition (Flag.Conditions f) \<and>
      list_all valid_variant (Variants f) \<and>
      sum_list (map Weight (Variants f)) \<le> 100)"

text \<open>A slice of variants whose weights, each at most 100, cannot overflow the 64-bit
  total of \<open>Flag.Validate\<close>. Every slice that fits into memory is of this kind. The
  length of any slice is a Go \<open>int\<close>.\<close>

definition slice_fits :: "'f Flag \<Rightarrow> bool" where
  "slice_fits f = (100 * int (length (Variants f)) < 2 ^ 63)"

definition representable_length :: "'a list \<Rightarrow> bool" where
  "representable_length xs = (int (length xs) < 2 ^ 63)"

text \<open>The operations on a store. An evaluation reads the flag map under the read lock
  and then only the fields of the flag it found; the source has no assignment on these
  paths, so the store after an evaluation is the store before it.\<close>

datatype 'f operation =
    OpAddFlag "'f Flag"
  | OpAddFlags "'f Flag list"
  | OpRemoveFlag string
  | OpClear
  | OpIsEnabled string "'f Context"
  | OpIsEnabledWithError string "'f Context"
  | OpGetVariant string "'f Context"
  | OpGetVariantWithError string "'f Context"

fun perform :: "'f Store \<Rightarrow> 'f operation \<Rightarrow> 'f Store" where
  "perform s (OpAddFlag flag) = fst (AddFlag s flag)"
| "perform s (OpAddFlags fs) = fst (AddFlags s fs)"
| "perform s (OpRemoveFlag name) = RemoveFlag s name"
| "perform s OpClear = Clear s"
| "perform s (OpIsEnabled name ctx) = s"
| "perform s (OpIsEnabledWithError name ctx) = s"
| "perform s (OpGetVariant name ctx) = s"
| "perform s (OpGetVariantWithError name ctx) = s"

fun operation_flags :: "'f operation \<Rightarrow> 'f Flag list" where
  "operation_flags (OpAddFlag flag) = [flag]"
| "operation_flags (OpAddFlags fs) = fs"
| "operation_flags _ = []"

definition operations_fit :: "'f operation list \<Rightarrow> bool" where
  "operations_fit ops = list_all (\<lambda>op. list_all slice_fits (operation_flags op)) ops"

definition registry_valid :: "'f Store \<Rightarrow> bool" where
  "registry_valid s =
     (\<forall>name f. flags s name = Some f \<longrightarrow> valid_flag f \<and> Flag.Name f = name)"

text \<open>The switchback strategy of the tests: built with an interval of 30 minutes, a
  start time and the daily swap, its time provider then replaced by a constant one.\<close>

definition switchback_30 :: "Time \<Rightarrow> bool \<Rightarrow> Time \<Rightarrow> SwitchbackRolloutStrategy" where
  "switchback_30 T0 swap t =
     (NewSwitchbackRolloutStrategy (\<lambda>_. t) t
        [WithIntervalMinutes 30, WithStartTime T0, WithDailySwap swap])
     \<lparr>timeProvider := \<lambda>_. t\<rparr>"

section \<open>Sample data\<close>

text \<open>A platform for the concrete evaluations below. They involve no floating point
  number, and no pattern but the malformed \<open>(\<close>, for which Go's \<open>regexp\<close> reports a
  syntax error.\<close>

definition sample_platform :: "int platform" where
  "sample_platform =
     \<lparr>regexp_MatchString = (\<lambda>pattern s.
         if pattern = ''('' then (False, Some (ErrRegexp ''missing closing )''))
         else (False, None)),
      strconv_ParseFloat = (\<lambda>s. None),
      float64_of_int = (\<lambda>i. i),
      float64_less = (\<lambda>a b. a < b),
      float64_le = (\<lambda>a b. a \<le> b),
      fmt_float = (\<lambda>bits x. itoa x)\<rparr>"

definition sample_clock :: "nat \<Rightarrow> Time" where
  "sample_clock k = 0"

text \<open>Midnight of 1 January 2024 (UTC), in nanoseconds since the zero time.\<close>

definition sample_start :: Time where
  "sample_start = 63839664000 * 1000000000"

definition country_is_US :: "int Condition" where
  "country_is_US =
     \<lparr>Attribute = ''country'', Operator = OperatorEqual, Value = VString ''US'', Negate = False\<rparr>"

definition plan_is_premium :: "int Condition" where
  "plan_is_premium =
     \<lparr>Attribute = ''plan'', Operator = OperatorEqual, Value = VString ''premium'',
      Negate = False\<rparr>"

definition rollout_flag :: "int Flag" where
  "rollout_flag =
     \<lparr>Flag.Name = ''rollout_flag'', Enabled = True, Rollout = 50, RolloutKey = ''user_id'',
      Flag.Conditions = [], Variants = [], DefaultVariant = []\<rparr>"

definition regex_flag :: "int Flag" where
  "regex_flag =
     \<lparr>Flag.Name = ''search'', Enabled = True, Rollout = 100, RolloutKey = [],
      Flag.Conditions = [\<lparr>Attribute = ''email'', Operator = OperatorRegex,
                           Value = VString ''('', Negate = False\<rparr>],
      Variants = [], DefaultVariant = ''control''\<rparr>"

definition regex_store :: "int Store" where
  "regex_store = fst (AddFlag (NewStore sample_clock 0 []) regex_flag)"

definition regex_ctx :: "int Context" where
  "regex_ctx = [''email'' \<mapsto> VString ''a@b.c'']"

definition ab_flag :: "int Flag" where
  "ab_flag =
     \<lparr>Flag.Name = ''ab_test'', Enabled = True, Rollout = 0, RolloutKey = ''user_id'',
      Flag.Conditions = [],
      Variants = [\<lparr>Variant.Name = ''control'', Weight = 50, Variant.Conditions = []\<rparr>,
                  \<lparr>Variant.Name = ''variation_a'', Weight = 25, Variant.Conditions = []\<rparr>],
      DefaultVariant = ''control''\<rparr>"

definition ab_store :: "int Store" where
  "ab_store = fst (AddFlag (NewStore sample_clock 0 []) ab_flag)"

definition user_ctx :: "string \<Rightarrow> int Context" where
  "user_ctx u = [''user_id'' \<mapsto> VString u]"

section \<open>Auxiliary facts\<close>

lemmas Operator_defs =
  OperatorEqual_def OperatorNotEqual_def OperatorIn_def OperatorNotIn_def
  OperatorGreaterThan_def OperatorGreaterThanOrEqual_def OperatorLessThan_def
  OperatorLessThanOrEqual_def OperatorContains_def OperatorStartsWith_def
  OperatorEndsWith_def OperatorRegex_def

lemma wrap64_id: "- (2 ^ 63) \<le> x \<Longrightarrow> x < 2 ^ 63 \<Longrightarrow> wrap64 x = x"
  by (simp add: wrap64_def)

subsection \<open>The hash\<close>

lemma unat_of_char32: "unat (of_char c :: 32 word) = of_char c"
proof -
  have "(of_char c :: nat) < 256" by simp
  then have lt: "(of_char c :: nat) < 4294967296" by linarith
  have "unat (of_nat (of_char c :: nat) :: 32 word) = of_char c"
    using lt by (simp add: unat_of_nat)
  then show ?thesis by (simp only: of_nat_of_char)
qed

lemma fnv32a_Write_unat:
  "unat (fnv32a_Write h s) = foldl fnv1a32_step (unat h) s"
proof (induction s arbitrary: h)
  case Nil
  show ?case by simp
next
  case (Cons c cs)
  have "unat ((h XOR of_char c) * prime32) = fnv1a32_step (unat h) c"
    by (simp add: fnv1a32_step_def prime32_def unat_word_ariths unsigned_xor_eq unat_of_char32)
  then show ?case using Cons.IH by simp
qed

lemma FNVHasher_Hash_bucket: "FNVHasher_Hash s = bucket s"
proof -
  have "unat (Sum32 s) = fnv1a32 s"
    by (simp add: Sum32_def fnv1a32_def fnv32a_Write_unat offset32_def)
  then show ?thesis
    by (simp add: FNVHasher_Hash_def bucket_def uint_nat unat_mod_distrib)
qed

lemma bucket_range: "0 \<le> bucket s \<and> bucket s < 100"
  by (simp add: bucket_def)

lemma FNVHasher_Hash_small: "FNVHasher_Hash s < 2 ^ 63"
  using bucket_range [of s] by (simp add: FNVHasher_Hash_bucket)

section \<open>The claims\<close>

text \<open>
  C1. The deterministic-hash strategy, built with the default hasher. \<open>ShouldRollout\<close>
  is true when the rollout is at least 100, whatever the context; false when it is at
  most 0; for a rollout strictly between, false when the rollout key is absent from the
  context and otherwise true exactly when the bucket of \<open>name:value\<close> is below the
  rollout. The bucket is the FNV-1a fingerprint of 32 bits modulo 100 and lies in
  \<open>[0, 100)\<close>.
\<close>

theorem ShouldRollout_by_bucket:
  "(100 \<le> Rollout flag \<longrightarrow>
      DefaultRolloutStrategy_ShouldRollout P (NewDefaultRolloutStrategy None) flag ctx
        = (True, None))
   \<and> (Rollout flag \<le> 0 \<longrightarrow>
      DefaultRolloutStrategy_ShouldRollout P (NewDefaultRolloutStrategy None) flag ctx
        = (False, None))
   \<and> (0 < Rollout flag \<and> Rollout flag < 100 \<and> ctx (GetRolloutKey flag) = None \<longrightarrow>
      DefaultRolloutStrategy_ShouldRollout P (NewDefaultRolloutStrategy None) flag ctx
        = (False, None))
   \<and> (0 < Rollout flag \<and> Rollout flag < 100 \<and> ctx (GetRolloutKey flag) = Some keyValue \<longrightarrow>
      DefaultRolloutStrategy_ShouldRollout P (NewDefaultRolloutStrategy None) flag ctx
        = (bucket (Flag.Name flag @ '':'' @ Sprint P keyValue) < Rollout flag, None))
   \<and> FNVHasher_Hash s = bucket s \<and> 0 \<le> bucket s \<and> bucket s < 100"
  by (simp add: DefaultRolloutStrategy_ShouldRollout_def NewDefaultRolloutStrategy_def
      Context_Get_def FNVHasher_Hash_bucket bucket_range)

theorem ShouldRollout_by_bucket_witness:
  "DefaultRolloutStrategy_ShouldRollout sample_platform (NewDefaultRolloutStrategy None)
      (rollout_flag\<lparr>Rollout := 100\<rparr>) Map.empty = (True, None)
   \<and> DefaultRolloutStrategy_ShouldRollout sample_platform (NewDefaultRolloutStrategy None)
      (rollout_flag\<lparr>Rollout := 0\<rparr>) (user_ctx ''bob'') = (False, None)
   \<and> DefaultRolloutStrategy_ShouldRollout sample_platform (NewDefaultRolloutStrategy None)
      rollout_flag Map.empty = (False, None)
   \<and> DefaultRolloutStrategy_ShouldRollout sample_platform (NewDefaultRolloutStrategy None)
      rollout_flag (user_ctx ''bob'') = (True, None)
   \<and> DefaultRolloutStrategy_ShouldRollout sample_platform (NewDefaultRolloutStrategy None)
      rollout_flag (user_ctx ''alice'') = (False, None)
   \<and> bucket ''rollout_flag:bob'' = 12 \<and> bucket ''rollout_flag:alice'' = 95"
proof -
  have bob: "bucket ''rollout_flag:bob'' = 12" and alice: "bucket ''rollout_flag:alice'' = 95"
    by (simp_all add: bucket_def fnv1a32_def fnv1a32_step_def)
  show ?thesis
    using
      ShouldRollout_by_bucket [of "rollout_flag\<lparr>Rollout := 100\<rparr>" sample_platform Map.empty]
      ShouldRollout_by_bucket [of "rollout_flag\<lparr>Rollout := 0\<rparr>" sample_platform "user_ctx ''bob''"]
      ShouldRollout_by_bucket [of rollout_flag sample_platform Map.empty]
      ShouldRollout_by_bucket [of rollout_flag sample_platform "user_ctx ''bob''" "VString ''bob''"]
      ShouldRollout_by_bucket [of rollout_flag sample_platform "user_ctx ''alice''" "VString ''alice''"]
    by (simp add: rollout_flag_def user_ctx_def GetRolloutKey_def bob alice)
qed

subsection \<open>The walk over the cumulative weights\<close>

lemma cumulative_from_0: "cumulative_from c (v # vs) 0 = wrap64 (c + Weight v)"
  by (simp add: cumulative_from_def)

lemma cumulative_from_Suc:
  "cumulative_from c (v # vs) (Suc i) = cumulative_from (wrap64 (c + Weight v)) vs i"
  by (simp add: cumulative_from_def)

lemma select_variant_first:
  "i < length vs \<Longrightarrow> h < cumulative_from c vs i \<Longrightarrow>
   (\<And>j. j < i \<Longrightarrow> cumulative_from c vs j \<le> h) \<Longrightarrow>
   select_variant h c vs = Some (Variant.Name (vs ! i))"
proof (induction vs arbitrary: c i)
  case Nil
  then show ?case by simp
next
  case (Cons v vs)
  show ?case
  proof (cases i)
    case 0
    with Cons.prems(2) show ?thesis
      by (simp add: cumulative_from_0 Let_def)
  next
    case (Suc k)
    have "cumulative_from c (v # vs) 0 \<le> h"
      using Cons.prems(3) [of 0] Suc by simp
    then have skip: "\<not> h < wrap64 (c + Weight v)"
      by (simp add: cumulative_from_0)
    have "select_variant h (wrap64 (c + Weight v)) vs = Some (Variant.Name (vs ! k))"
    proof (rule Cons.IH)
      show "k < length vs" using Cons.prems(1) Suc by simp
      show "h < cumulative_from (wrap64 (c + Weight v)) vs k"
        using Cons.prems(2) Suc by (simp add: cumulative_from_Suc)
      fix j assume "j < k"
      then have "cumulative_from c (v # vs) (Suc j) \<le> h"
        using Cons.prems(3) [of "Suc j"] Suc by simp
      then show "cumulative_from (wrap64 (c + Weight v)) vs j \<le> h"
        by (simp add: cumulative_from_Suc)
    qed
    with skip Suc show ?thesis by (simp add: Let_def)
  qed
qed

lemma select_variant_none:
  "(\<And>i. i < length vs \<Longrightarrow> cumulative_from c vs i \<le> h) \<Longrightarrow> select_variant h c vs = None"
proof (induction vs arbitrary: c)
  case Nil
  show ?case by simp
next
  case (Cons v vs)
  have "cumulative_from c (v # vs) 0 \<le> h"
    using Cons.prems [of 0] by simp
  then have skip: "\<not> h < wrap64 (c + Weight v)"
    by (simp add: cumulative_from_0)
  have "select_variant h (wrap64 (c + Weight v)) vs = None"
  proof (rule Cons.IH)
    fix i assume "i < length vs"
    then have "cumulative_from c (v # vs) (Suc i) \<le> h"
      using Cons.prems [of "Suc i"] by simp
    then show "cumulative_from (wrap64 (c + Weight v)) vs i \<le> h"
      by (simp add: cumulative_from_Suc)
  qed
  with skip show ?case by (simp add: Let_def)
qed

text \<open>Without overflow the cumulative weight is the sum of the weights so far.\<close>

lemma cumulative_from_sum:
  "list_all (\<lambda>v. 0 \<le> Weight v) vs \<Longrightarrow> 0 \<le> c \<Longrightarrow>
   c + sum_list (map Weight vs) < 2 ^ 63 \<Longrightarrow>
   cumulative_from c vs i = c + sum_list (map Weight (take (Suc i) vs))"
proof (induction vs arbitrary: c i)
  case Nil
  show ?case by (simp add: cumulative_from_def)
next
  case (Cons v vs)
  have w0: "0 \<le> Weight v" and rest: "list_all (\<lambda>v. 0 \<le> Weight v) vs"
    using Cons.prems(1) by simp_all
  have s0: "0 \<le> sum_list (map Weight vs)"
    using rest by (intro sum_list_nonneg) (auto simp add: list_all_iff)
  have w: "wrap64 (c + Weight v) = c + Weight v"
    using w0 s0 Cons.prems(2,3) by (intro wrap64_id) simp_all
  show ?case
  proof (cases i)
    case 0
    then show ?thesis by (simp add: cumulative_from_0 w)
  next
    case (Suc k)
    have "cumulative_from (c + Weight v) vs k
        = (c + Weight v) + sum_list (map Weight (take (Suc k) vs))"
      using Cons.prems w0 rest by (intro Cons.IH) simp_all
    then show ?thesis using Suc by (simp add: cumulative_from_Suc w)
  qed
qed

text \<open>
  C2. The deterministic-hash strategy, built with the default hasher. For a flag with
  variants and a context that has the rollout key, \<open>GetVariant\<close> returns the name of the
  first variant, in the order of declaration, whose cumulative weight exceeds the hash of
  \<open>name:variant:value\<close>, and the default variant when no cumulative weight does. Without
  variants, or without the rollout key, it returns the default variant. The cumulative
  weight is the 64-bit sum that the code accumulates; for weights that are not negative
  and whose total is representable it is the sum of the weights so far.
\<close>

theorem GetVariant_first_exceeding:
  "(Variants flag \<noteq> [] \<and> ctx (GetRolloutKey flag) = Some keyValue \<and>
     i < length (Variants flag) \<and>
     FNVHasher_Hash (Flag.Name flag @ '':variant:'' @ Sprint P keyValue)
       < cumulative_weight (Variants flag) i \<and>
     (\<forall>j<i. cumulative_weight (Variants flag) j
        \<le> FNVHasher_Hash (Flag.Name flag @ '':variant:'' @ Sprint P keyValue))
     \<longrightarrow> DefaultRolloutStrategy_GetVariant P (NewDefaultRolloutStrategy None) flag ctx =
           (Variant.Name (Variants flag ! i), None))
   \<and> (Variants flag \<noteq> [] \<and> ctx (GetRolloutKey flag) = Some keyValue \<and>
     (\<forall>j<length (Variants flag). cumulative_weight (Variants flag) j
        \<le> FNVHasher_Hash (Flag.Name flag @ '':variant:'' @ Sprint P keyValue))
     \<longrightarrow> DefaultRolloutStrategy_GetVariant P (NewDefaultRolloutStrategy None) flag ctx =
           (DefaultVariant flag, None))
   \<and> (Variants flag = [] \<or> ctx (GetRolloutKey flag) = None
     \<longrightarrow> DefaultRolloutStrategy_GetVariant P (NewDefaultRolloutStrategy None) flag ctx =
           (DefaultVariant flag, None))
   \<and> (list_all (\<lambda>v. 0 \<le> Weight v) (Variants flag) \<and>
       sum_list (map Weight (Variants flag)) < 2 ^ 63
     \<longrightarrow> cumulative_weight (Variants flag) k
           = sum_list (map Weight (take (Suc k) (Variants flag))))"
proof (intro conjI impI)
  assume a: "Variants flag \<noteq> [] \<and> ctx (GetRolloutKey flag) = Some keyValue \<and>
     i < length (Variants flag) \<and>
     FNVHasher_Hash (Flag.Name flag @ '':variant:'' @ Sprint P keyValue)
       < cumulative_weight (Variants flag) i \<and>
     (\<forall>j<i. cumulative_weight (Variants flag) j
        \<le> FNVHasher_Hash (Flag.Name flag @ '':variant:'' @ Sprint P keyValue))"
  then have "select_variant (FNVHasher_Hash (Flag.Name flag @ '':variant:'' @ Sprint P keyValue))
      0 (Variants flag) = Some (Variant.Name (Variants flag ! i))"
    by (intro select_variant_first) (simp_all add: cumulative_weight_def)
  with a show "DefaultRolloutStrategy_GetVariant P (NewDefaultRolloutStrategy None) flag ctx =
      (Variant.Name (Variants flag ! i), None)"
    by (simp add: DefaultRolloutStrategy_GetVariant_def NewDefaultRolloutStrategy_def
        HasVariants_def Context_Get_def)
next
  assume a: "Variants flag \<noteq> [] \<and> ctx (GetRolloutKey flag) = Some keyValue \<and>
     (\<forall>j<length (Variants flag). cumulative_weight (Variants flag) j
        \<le> FNVHasher_Hash (Flag.Name flag @ '':variant:'' @ Sprint P keyValue))"
  then have "select_variant (FNVHasher_Hash (Flag.Name flag @ '':variant:'' @ Sprint P keyValue))
      0 (Variants flag) = None"
    by (intro select_variant_none) (simp_all add: cumulative_weight_def)
  with a show "DefaultRolloutStrategy_GetVariant P (NewDefaultRolloutStrategy None) flag ctx =
      (DefaultVariant flag, None)"
    by (simp add: DefaultRolloutStrategy_GetVariant_def NewDefaultRolloutStrategy_def
        HasVariants_def Context_Get_def)
next
  assume "Variants flag = [] \<or> ctx (GetRolloutKey flag) = None"
  then show "DefaultRolloutStrategy_GetVariant P (NewDefaultRolloutStrategy None) flag ctx =
      (DefaultVariant flag, None)"
    by (auto simp add: DefaultRolloutStrategy_GetVariant_def NewDefaultRolloutStrategy_def
        HasVariants_def Context_Get_def)
next
  assume "list_all (\<lambda>v. 0 \<le> Weight v) (Variants flag) \<and>
       sum_list (map Weight (Variants flag)) < 2 ^ 63"
  then have "cumulative_from 0 (Variants flag) k
      = 0 + sum_list (map Weight (take (Suc k) (Variants flag)))"
    by (intro cumulative_from_sum) simp_all
  then show "cumulative_weight (Variants flag) k
      = sum_list (map Weight (take (Suc k) (Variants flag)))"
    by (simp add: cumulative_weight_def)
qed

theorem GetVariant_first_exceeding_witness:
  "FNVHasher_Hash ''ab_test:variant:2'' = 64
   \<and> cumulative_weight (Variants ab_flag) 0 = 50
   \<and> cumulative_weight (Variants ab_flag) (Suc 0) = 75
   \<and> DefaultRolloutStrategy_GetVariant sample_platform (NewDefaultRolloutStrategy None)
        ab_flag (user_ctx ''2'') = (''variation_a'', None)
   \<and> FNVHasher_Hash ''ab_test:variant:3'' = 83
   \<and> DefaultRolloutStrategy_GetVariant sample_platform (NewDefaultRolloutStrategy None)
        ab_flag (user_ctx ''3'') = (''control'', None)
   \<and> DefaultRolloutStrategy_GetVariant sample_platform (NewDefaultRolloutStrategy None)
        ab_flag Map.empty = (''control'', None)"
proof -
  have h2: "FNVHasher_Hash ''ab_test:variant:2'' = 64"
    and h3: "FNVHasher_Hash ''ab_test:variant:3'' = 83"
    by (simp_all add: FNVHasher_Hash_def Sum32_def offset32_def prime32_def)
  have c: "cumulative_weight (Variants ab_flag) 0 = 50"
    "cumulative_weight (Variants ab_flag) (Suc 0) = 75"
    by (simp_all add: cumulative_weight_def cumulative_from_def ab_flag_def wrap64_def)
  have l: "length (Variants ab_flag) = 2" "Variants ab_flag \<noteq> []"
    "Flag.Name ab_flag = ''ab_test''" "GetRolloutKey ab_flag = ''user_id''"
    "DefaultVariant ab_flag = ''control''"
    "Variant.Name (Variants ab_flag ! Suc 0) = ''variation_a''"
    by (simp_all add: ab_flag_def GetRolloutKey_def)
  have all2: "(\<forall>j<2. Q j) \<longleftrightarrow> Q 0 \<and> Q (1::nat)" for Q
    by (auto simp add: numeral_2_eq_2 less_Suc_eq)
  show ?thesis
    using
      GetVariant_first_exceeding [of ab_flag "user_ctx ''2''" "VString ''2''" "Suc 0" sample_platform 0]
      GetVariant_first_exceeding [of ab_flag "user_ctx ''3''" "VString ''3''" 0 sample_platform 0]
      GetVariant_first_exceeding [of ab_flag Map.empty "VString ''3''" 0 sample_platform 0]
    by (simp add: h2 h3 c l all2 user_ctx_def)
qed

subsection \<open>The evaluator\<close>

lemma evaluate_error_false: "evaluate P c ctx = (r, Some e) \<Longrightarrow> r = False"
  by (auto simp add: evaluate_def split: option.splits prod.splits)

lemma evaluate_cases:
  "evaluate P c ctx = (True, None) \<or> evaluate P c ctx = (False, None) \<or>
   (\<exists>e. evaluate P c ctx = (False, Some e))"
proof (cases "evaluate P c ctx")
  case (Pair r eo)
  then show ?thesis
    by (cases eo; cases r) (auto dest: evaluate_error_false)
qed

lemma evaluateAll_stop:
  "evaluate P c ctx \<noteq> (True, None) \<Longrightarrow> evaluateAll P (c # post) ctx = evaluate P c ctx"
  using evaluate_cases [of P c ctx] by auto

lemma evaluateAll_prefix_true:
  "(\<And>x. x \<in> set pre \<Longrightarrow> evaluate P x ctx = (True, None)) \<Longrightarrow>
   evaluateAll P (pre @ rest) ctx = evaluateAll P rest ctx"
  by (induction pre) simp_all

text \<open>
  C3. \<open>evaluateAll\<close> is a conjunction that stops early. The empty list gives true. The
  first condition, in the order of the list, whose evaluation is not a plain true (it is
  false, or an error) ends the evaluation with its own result, whatever follows it in
  the list. When every condition gives true, so does the list. For a list of two
  conditions the result is true exactly when both conditions give true on their own.
\<close>

theorem evaluateAll_short_circuit:
  "evaluateAll P [] ctx = (True, None)
   \<and> ((\<forall>x\<in>set pre. evaluate P x ctx = (True, None)) \<and> evaluate P c ctx \<noteq> (True, None)
        \<longrightarrow> evaluateAll P (pre @ c # post) ctx = evaluate P c ctx)
   \<and> ((\<forall>x\<in>set cs. evaluate P x ctx = (True, None)) \<longrightarrow> evaluateAll P cs ctx = (True, None))
   \<and> (fst (evaluateAll P [A, B] ctx) \<longleftrightarrow> fst (evaluate P A ctx) \<and> fst (evaluate P B ctx))"
proof (intro conjI impI)
  show "evaluateAll P [] ctx = (True, None)" by simp
next
  assume a: "(\<forall>x\<in>set pre. evaluate P x ctx = (True, None)) \<and> evaluate P c ctx \<noteq> (True, None)"
  then have "evaluateAll P (pre @ c # post) ctx = evaluateAll P (c # post) ctx"
    by (intro evaluateAll_prefix_true) simp
  also have "\<dots> = evaluate P c ctx"
    using a by (intro evaluateAll_stop) simp
  finally show "evaluateAll P (pre @ c # post) ctx = evaluate P c ctx" .
next
  assume "\<forall>x\<in>set cs. evaluate P x ctx = (True, None)"
  then have "evaluateAll P (cs @ []) ctx = evaluateAll P [] ctx"
    by (intro evaluateAll_prefix_true) simp
  then show "evaluateAll P cs ctx = (True, None)" by simp
next
  show "fst (evaluateAll P [A, B] ctx) \<longleftrightarrow> fst (evaluate P A ctx) \<and> fst (evaluate P B ctx)"
    using evaluate_cases [of P A ctx] evaluate_cases [of P B ctx] by auto
qed

theorem evaluateAll_short_circuit_witness:
  "evaluate sample_platform country_is_US [''country'' \<mapsto> VString ''US'', ''plan'' \<mapsto> VString ''basic'']
     = (True, None)
   \<and> evaluate sample_platform plan_is_premium [''country'' \<mapsto> VString ''US'', ''plan'' \<mapsto> VString ''basic'']
     = (False, None)
   \<and> evaluateAll sample_platform ([country_is_US] @ plan_is_premium # [country_is_US])
        [''country'' \<mapsto> VString ''US'', ''plan'' \<mapsto> VString ''basic''] = (False, None)
   \<and> evaluateAll sample_platform [country_is_US, country_is_US]
        [''country'' \<mapsto> VString ''US'', ''plan'' \<mapsto> VString ''basic''] = (True, None)
   \<and> fst (evaluateAll sample_platform [country_is_US, plan_is_premium]
        [''country'' \<mapsto> VString ''US'', ''plan'' \<mapsto> VString ''basic'']) = False"
proof -
  have a: "evaluate sample_platform country_is_US
      [''country'' \<mapsto> VString ''US'', ''plan'' \<mapsto> VString ''basic''] = (True, None)"
    by (simp add: evaluate_def country_is_US_def Condition_Validate_def IsValid_def Operator_defs
        Context_Get_def evaluateOperator_def evaluateEqual_def applyNegate_def)
  have b: "evaluate sample_platform plan_is_premium
      [''country'' \<mapsto> VString ''US'', ''plan'' \<mapsto> VString ''basic''] = (False, None)"
    by (simp add: evaluate_def plan_is_premium_def Condition_Validate_def IsValid_def
        Operator_defs Context_Get_def evaluateOperator_def evaluateEqual_def applyNegate_def)
  show ?thesis
    using
      evaluateAll_short_circuit [of sample_platform
        "[''country'' \<mapsto> VString ''US'', ''plan'' \<mapsto> VString ''basic'']"
        "[country_is_US]" plan_is_premium "[country_is_US]" "[country_is_US, country_is_US]"
        country_is_US plan_is_premium]
    by (simp add: a b)
qed

text \<open>
  C4. A valid condition on an attribute that the context does not have evaluates without
  an error, to false when \<open>negate\<close> is unset and to true when it is set.
\<close>

theorem evaluate_missing_attribute:
  "Condition_Validate c = None \<Longrightarrow> ctx (Attribute c) = None \<Longrightarrow>
   evaluate P c ctx = (Negate c, None)"
  by (simp add: evaluate_def Context_Get_def applyNegate_def)

theorem evaluate_missing_attribute_witness:
  "evaluate sample_platform country_is_US [''plan'' \<mapsto> VString ''basic''] = (False, None)
   \<and> evaluate sample_platform (country_is_US\<lparr>Negate := True\<rparr>) [''plan'' \<mapsto> VString ''basic'']
       = (True, None)"
proof -
  have v: "Condition_Validate country_is_US = None"
    "Condition_Validate (country_is_US\<lparr>Negate := True\<rparr>) = None"
    by (simp_all add: country_is_US_def Condition_Validate_def IsValid_def Operator_defs)
  have m: "[''plan'' \<mapsto> VString ''basic''] (Attribute country_is_US) = None"
    "[''plan'' \<mapsto> VString ''basic''] (Attribute (country_is_US\<lparr>Negate := True\<rparr>)) = None"
    by (simp_all add: country_is_US_def)
  show ?thesis
    using
      evaluate_missing_attribute [of country_is_US "[''plan'' \<mapsto> VString ''basic'']"
        sample_platform, OF v(1) m(1)]
      evaluate_missing_attribute [of "country_is_US\<lparr>Negate := True\<rparr>"
        "[''plan'' \<mapsto> VString ''basic'']" sample_platform, OF v(2) m(2)]
    by (simp add: country_is_US_def)
qed

subsection \<open>Validation\<close>

lemma validate_conditions_valid:
  "validate_conditions cs = None \<longleftrightarrow> list_all valid_condition cs"
  by (induction cs)
    (auto simp add: Condition_Validate_def valid_condition_def split: option.splits if_splits)

lemma validate_conditions_cases:
  "(validate_conditions cs = None \<and> list_all valid_condition cs) \<or>
   ((\<exists>e. validate_conditions cs = Some e) \<and> \<not> list_all valid_condition cs)"
  using validate_conditions_valid [of cs] by (cases "validate_conditions cs") auto

lemma valid_variants_sum_nonneg:
  "list_all valid_variant vs \<Longrightarrow> 0 \<le> sum_list (map Weight vs)"
  by (intro sum_list_nonneg) (auto simp add: list_all_iff valid_variant_def)

lemma valid_variants_sum_le:
  "list_all valid_variant vs \<Longrightarrow> sum_list (map Weight vs) \<le> 100 * int (length vs)"
  by (induction vs) (auto simp add: valid_variant_def)

lemma validate_variants_ok:
  "list_all valid_variant vs \<Longrightarrow> 0 \<le> t \<Longrightarrow> t + sum_list (map Weight vs) < 2 ^ 63 \<Longrightarrow>
   validate_variants t vs = Inr (t + sum_list (map Weight vs))"
proof (induction vs arbitrary: t)
  case Nil
  show ?case by simp
next
  case (Cons v vs)
  have rest: "list_all valid_variant vs"
    using Cons.prems(1) by simp
  have v: "0 \<le> Weight v" "Weight v \<le> 100" "validate_conditions (Variant.Conditions v) = None"
    using Cons.prems(1) by (simp_all add: valid_variant_def validate_conditions_valid)
  have s0: "0 \<le> sum_list (map Weight vs)"
    using rest by (rule valid_variants_sum_nonneg)
  have w: "wrap64 (t + Weight v) = t + Weight v"
    using v s0 Cons.prems(2,3) by (intro wrap64_id) simp_all
  have "validate_variants (t + Weight v) vs = Inr (t + Weight v + sum_list (map Weight vs))"
    using Cons.prems v rest by (intro Cons.IH) simp_all
  then show ?case using v w by simp
qed

lemma validate_variants_bad:
  "\<not> list_all valid_variant vs \<Longrightarrow> \<exists>e. validate_variants t vs = Inl e"
proof (induction vs arbitrary: t)
  case Nil
  then show ?case by simp
next
  case (Cons v vs)
  show ?case
  proof (cases "valid_variant v")
    case True
    then have "\<not> list_all valid_variant vs" using Cons.prems by simp
    then obtain e where "validate_variants (wrap64 (t + Weight v)) vs = Inl e"
      using Cons.IH by blast
    then show ?thesis
      using validate_conditions_cases [of "Variant.Conditions v"]
      by auto
  next
    case False
    then show ?thesis
      using validate_conditions_cases [of "Variant.Conditions v"]
      by (auto simp add: valid_variant_def)
  qed
qed

lemma Flag_Validate_of_valid:
  assumes "valid_flag f"
  shows "Flag_Validate f = None"
proof -
  have vs: "list_all valid_variant (Variants f)" and le: "sum_list (map Weight (Variants f)) \<le> 100"
    using assms by (simp_all add: valid_flag_def)
  have "validate_variants 0 (Variants f) = Inr (0 + sum_list (map Weight (Variants f)))"
    using vs le by (intro validate_variants_ok) simp_all
  then show ?thesis
    using assms validate_conditions_cases [of "Flag.Conditions f"]
    by (auto simp add: Flag_Validate_def valid_flag_def)
qed

lemma Flag_Validate_valid:
  assumes "slice_fits f"
  shows "Flag_Validate f = None \<longleftrightarrow> valid_flag f"
proof (cases "list_all valid_variant (Variants f)")
  case True
  have "sum_list (map Weight (Variants f)) < 2 ^ 63"
    using valid_variants_sum_le [OF True] assms by (simp add: slice_fits_def)
  then have "validate_variants 0 (Variants f) = Inr (0 + sum_list (map Weight (Variants f)))"
    using True by (intro validate_variants_ok) simp_all
  then show ?thesis
    using True validate_conditions_cases [of "Flag.Conditions f"]
    by (cases "Variants f = []")
      (auto simp add: Flag_Validate_def valid_flag_def split: if_splits)
next
  case False
  then obtain e where "validate_variants 0 (Variants f) = Inl e"
    using validate_variants_bad by blast
  then show ?thesis
    using False validate_conditions_cases [of "Flag.Conditions f"]
    by (auto simp add: Flag_Validate_def valid_flag_def)
qed

text \<open>
  C5. \<open>AddFlag\<close> validates the flag: the name is not empty, the rollout is in
  \<open>[0, 100]\<close>, every condition of the flag and of its variants is valid, every weight
  is in \<open>[0, 100]\<close> and the weights sum to at most 100. A valid flag is stored under its
  name, replacing a flag of that name. A flag that is not valid is refused with an error
  (its variants being a slice that fits into memory), and whenever \<open>AddFlag\<close> returns an
  error the store stays as it was, with the same flags and the same size. A rollout of
  150 is refused.
\<close>

theorem AddFlag_validates:
  "(valid_flag f \<longrightarrow> AddFlag s f = (s\<lparr>flags := (flags s)(Flag.Name f \<mapsto> f)\<rparr>, None))
   \<and> (\<not> valid_flag f \<and> slice_fits f \<longrightarrow> snd (AddFlag s f) \<noteq> None)
   \<and> (snd (AddFlag s f) \<noteq> None \<longrightarrow>
         fst (AddFlag s f) = s \<and> flags (fst (AddFlag s f)) = flags s
         \<and> Size (fst (AddFlag s f)) = Size s)
   \<and> (Rollout f = 150 \<longrightarrow>
         AddFlag s f
           = (s, Some (if Flag.Name f = [] then ErrInvalidCondition else ErrInvalidRollout)))"
proof (intro conjI impI)
  assume "valid_flag f"
  then have "Flag_Validate f = None" by (rule Flag_Validate_of_valid)
  then show "AddFlag s f = (s\<lparr>flags := (flags s)(Flag.Name f \<mapsto> f)\<rparr>, None)"
    by (simp add: AddFlag_def)
next
  assume "\<not> valid_flag f \<and> slice_fits f"
  then have "Flag_Validate f \<noteq> None" by (simp add: Flag_Validate_valid)
  then show "snd (AddFlag s f) \<noteq> None"
    by (auto simp add: AddFlag_def)
next
  assume "snd (AddFlag s f) \<noteq> None"
  then have "fst (AddFlag s f) = s"
    by (cases "Flag_Validate f") (simp_all add: AddFlag_def)
  then show "fst (AddFlag s f) = s" "flags (fst (AddFlag s f)) = flags s"
     "Size (fst (AddFlag s f)) = Size s"
    by simp_all
next
  assume "Rollout f = 150"
  then show "AddFlag s f
      = (s, Some (if Flag.Name f = [] then ErrInvalidCondition else ErrInvalidRollout))"
    by (simp add: AddFlag_def Flag_Validate_def)
qed

theorem AddFlag_validates_witness:
  "slice_fits ab_flag \<and> valid_flag ab_flag
   \<and> AddFlag ab_store (ab_flag\<lparr>Enabled := False\<rparr>)
       = (ab_store\<lparr>flags := (flags ab_store)(''ab_test'' \<mapsto> ab_flag\<lparr>Enabled := False\<rparr>)\<rparr>, None)
   \<and> \<not> valid_flag (rollout_flag\<lparr>Rollout := 150\<rparr>)
   \<and> AddFlag ab_store (rollout_flag\<lparr>Rollout := 150\<rparr>) = (ab_store, Some ErrInvalidRollout)
   \<and> Size (fst (AddFlag ab_store (rollout_flag\<lparr>Rollout := 150\<rparr>))) = Size ab_store
   \<and> \<not> valid_flag (ab_flag\<lparr>Flag.Name := []\<rparr>)
   \<and> snd (AddFlag ab_store (ab_flag\<lparr>Flag.Name := []\<rparr>)) \<noteq> None
   \<and> fst (AddFlag ab_store (ab_flag\<lparr>Flag.Name := []\<rparr>)) = ab_store"
proof -
  have fit: "slice_fits ab_flag" "slice_fits (ab_flag\<lparr>Flag.Name := []\<rparr>)"
    by (simp_all add: slice_fits_def ab_flag_def)
  have v: "valid_flag ab_flag" "valid_flag (ab_flag\<lparr>Enabled := False\<rparr>)"
    "\<not> valid_flag (rollout_flag\<lparr>Rollout := 150\<rparr>)"
    "\<not> valid_flag (ab_flag\<lparr>Flag.Name := []\<rparr>)"
    by (simp_all add: valid_flag_def valid_variant_def ab_flag_def rollout_flag_def)
  show ?thesis
    using AddFlag_validates [of "ab_flag\<lparr>Enabled := False\<rparr>" ab_store]
      AddFlag_validates [of "rollout_flag\<lparr>Rollout := 150\<rparr>" ab_store]
      AddFlag_validates [of "ab_flag\<lparr>Flag.Name := []\<rparr>" ab_store]
    by (simp add: fit v) (simp add: ab_flag_def rollout_flag_def)
qed

subsection \<open>The queries of the store\<close>

lemma regex_store_flags: "flags regex_store ''search'' = Some regex_flag"
  by (simp add: regex_store_def AddFlag_def NewStore_def Flag_Validate_def regex_flag_def
      Condition_Validate_def IsValid_def Operator_defs)

lemma regex_eval:
  "evaluateAll sample_platform (Flag.Conditions regex_flag) regex_ctx
     = (False, Some (ErrRegexp ''missing closing )''))"
  by (simp add: regex_flag_def regex_ctx_def evaluate_def Condition_Validate_def IsValid_def
      Operator_defs Context_Get_def evaluateOperator_def evaluateRegex_def sample_platform_def)

lemma regex_GetVariantWithError:
  "GetVariantWithError sample_platform regex_store ''search'' regex_ctx
     = Inr ([], False, Some (ErrRegexp ''missing closing )''))"
  by (simp add: GetVariantWithError_def GetFlag_def regex_store_flags regex_eval)
    (simp add: regex_flag_def)

lemma regex_IsEnabledWithError:
  "IsEnabledWithError sample_platform regex_store ''search'' regex_ctx
     = (False, Some (ErrRegexp ''missing closing )''))"
  by (simp add: IsEnabledWithError_def GetFlag_def regex_store_flags regex_eval)
    (simp add: regex_flag_def HasVariants_def)

lemma find_variant_error:
  "find_variant P vs n ctx d = (v, en, Some e) \<Longrightarrow> v = [] \<and> en = False"
  by (induction vs) (auto split: if_splits prod.splits option.splits)

lemma find_variant_find:
  "find_variant P vs n ctx d =
     (case find (\<lambda>v. Variant.Name v = n) vs of
        None \<Rightarrow> (d, False, None)
      | Some v \<Rightarrow>
          if Variant.Conditions v \<noteq> [] then
            (case evaluateAll P (Variant.Conditions v) ctx of
               (match, Some err) \<Rightarrow> ([], False, Some err)
             | (match, None) \<Rightarrow>
                 if \<not> match then (d, False, None) else (Variant.Name v, True, None))
          else (Variant.Name v, True, None))"
  by (induction vs) simp_all

lemma select_variant_remainder:
  "list_all (\<lambda>v. 0 \<le> Weight v) vs \<Longrightarrow> 0 \<le> c \<Longrightarrow> c + sum_list (map Weight vs) \<le> h \<Longrightarrow>
   h < 2 ^ 63 \<Longrightarrow> select_variant h c vs = None"
proof (induction vs arbitrary: c)
  case Nil
  show ?case by simp
next
  case (Cons v vs)
  have w0: "0 \<le> Weight v" and rest: "list_all (\<lambda>v. 0 \<le> Weight v) vs"
    using Cons.prems(1) by simp_all
  have s0: "0 \<le> sum_list (map Weight vs)"
    using rest by (intro sum_list_nonneg) (auto simp add: list_all_iff)
  have w: "wrap64 (c + Weight v) = c + Weight v"
    using w0 s0 Cons.prems(2,3,4) by (intro wrap64_id) simp_all
  have "select_variant h (c + Weight v) vs = None"
    using Cons.prems w0 rest by (intro Cons.IH) simp_all
  then show ?case
    using w s0 Cons.prems(3) by (simp add: Let_def)
qed

lemma ab_store_fields:
  "flags ab_store ''ab_test'' = Some ab_flag"
  "rolloutStrategy ab_store = DefaultStrategy (NewDefaultRolloutStrategy None)"
  by (simp_all add: ab_store_def AddFlag_def NewStore_def Flag_Validate_def ab_flag_def
      wrap64_def)

lemma hash_ab_test_3: "FNVHasher_Hash ''ab_test:variant:3'' = 83"
  by (simp add: FNVHasher_Hash_def Sum32_def offset32_def prime32_def)

text \<open>
  C6, as the code has it. When the error-returning form reports an error (the flag is
  not in the store, or an evaluation fails, as on a malformed regular expression), the
  form without an error result drops the error and returns what came with it:
  \<open>IsEnabled\<close> returns false, and \<open>GetVariant\<close> returns the empty variant name with
  \<open>enabled = false\<close>. The empty name is returned also when the flag has a default
  variant.
\<close>

theorem convenience_forms_on_error:
  "(IsEnabledWithError P s name ctx = (r, Some e) \<longrightarrow> IsEnabled P s name ctx = False)
   \<and> (GetVariantWithError P s name ctx = Inr (v, en, Some e) \<longrightarrow>
        Store_GetVariant P s name ctx = Inr ([], False))
   \<and> (flags s name = None \<longrightarrow>
        IsEnabledWithError P s name ctx = (False, Some ErrFlagNotFound) \<and>
        GetVariantWithError P s name ctx = Inr ([], False, Some ErrFlagNotFound))"
proof (intro conjI impI)
  assume "IsEnabledWithError P s name ctx = (r, Some e)"
  then show "IsEnabled P s name ctx = False"
    by (auto simp add: IsEnabled_def IsEnabledWithError_def
        split: sum.splits if_splits prod.splits option.splits)
next
  assume a: "GetVariantWithError P s name ctx = Inr (v, en, Some e)"
  then have "v = [] \<and> en = False"
    by (auto simp add: GetVariantWithError_def dest: find_variant_error
        split: sum.splits if_splits prod.splits option.splits)
  with a show "Store_GetVariant P s name ctx = Inr ([], False)"
    by (simp add: Store_GetVariant_def)
next
  assume "flags s name = None"
  then show "IsEnabledWithError P s name ctx = (False, Some ErrFlagNotFound)"
    "GetVariantWithError P s name ctx = Inr ([], False, Some ErrFlagNotFound)"
    by (simp_all add: IsEnabledWithError_def GetVariantWithError_def GetFlag_def)
qed

theorem convenience_forms_on_error_witness:
  "IsEnabledWithError sample_platform regex_store ''search'' regex_ctx
     = (False, Some (ErrRegexp ''missing closing )''))
   \<and> IsEnabled sample_platform regex_store ''search'' regex_ctx = False
   \<and> GetVariantWithError sample_platform regex_store ''search'' regex_ctx
       = Inr ([], False, Some (ErrRegexp ''missing closing )''))
   \<and> Store_GetVariant sample_platform regex_store ''search'' regex_ctx = Inr ([], False)
   \<and> flags regex_store ''absent'' = None
   \<and> IsEnabled sample_platform regex_store ''absent'' regex_ctx = False
   \<and> Store_GetVariant sample_platform regex_store ''absent'' regex_ctx = Inr ([], False)"
proof -
  have n: "flags regex_store ''absent'' = None"
    by (simp add: regex_store_def AddFlag_def NewStore_def Flag_Validate_def regex_flag_def
        Condition_Validate_def IsValid_def Operator_defs)
  show ?thesis
    using
      convenience_forms_on_error [of sample_platform regex_store "''search''" regex_ctx
        False "ErrRegexp ''missing closing )''" "[]" False]
      convenience_forms_on_error [of sample_platform regex_store "''absent''" regex_ctx
        False ErrFlagNotFound "[]" False]
    by (simp add: regex_IsEnabledWithError regex_GetVariantWithError n)
qed

text \<open>The claim C6 as it is stated fails: on the malformed pattern the error-returning
  form fails, the flag's default variant is \<open>control\<close>, and \<open>GetVariant\<close> returns the
  empty name, not the default variant.\<close>

theorem GetVariant_error_not_default:
  "GetVariantWithError sample_platform regex_store ''search'' regex_ctx
     = Inr ([], False, Some (ErrRegexp ''missing closing )''))
   \<and> flags regex_store ''search'' = Some regex_flag
   \<and> DefaultVariant regex_flag = ''control''
   \<and> Store_GetVariant sample_platform regex_store ''search'' regex_ctx = Inr ([], False)
   \<and> Store_GetVariant sample_platform regex_store ''search'' regex_ctx
        \<noteq> Inr (DefaultVariant regex_flag, False)"
  by (simp add: Store_GetVariant_def regex_GetVariantWithError regex_store_flags)
    (simp add: regex_flag_def)

text \<open>
  C7, as the code has it. The store uses the deterministic-hash strategy; the flag is
  enabled, has variants whose weights are not negative, its conditions match, the context
  has the rollout key, and the hash lands at or above the total weight. Then the
  strategy selects the default variant's name, and the store looks that name up among the
  variants. When no variant has that name, \<open>GetVariant\<close> returns the default variant with
  \<open>enabled = false\<close>. When a variant has that name, the first such variant decides: with
  no conditions, or with conditions that match, the result is the default variant with
  \<open>enabled = true\<close>; with conditions that do not match, it is the default variant with
  \<open>enabled = false\<close>; with conditions whose evaluation fails with an error, it is the
  empty variant name with \<open>enabled = false\<close>, and the error-returning form reports the
  error. These four cases are all the cases.
\<close>

theorem GetVariant_unallocated_remainder:
  assumes "flags s name = Some f"
    and "rolloutStrategy s = DefaultStrategy (NewDefaultRolloutStrategy None)"
    and "Enabled f" and "Variants f \<noteq> []"
    and "evaluateAll P (Flag.Conditions f) ctx = (True, None)"
    and "ctx (GetRolloutKey f) = Some keyValue"
    and "list_all (\<lambda>v. 0 \<le> Weight v) (Variants f)"
    and "sum_list (map Weight (Variants f))
           \<le> FNVHasher_Hash (Flag.Name f @ '':variant:'' @ Sprint P keyValue)"
  shows "(find (\<lambda>v. Variant.Name v = DefaultVariant f) (Variants f) = None \<longrightarrow>
            Store_GetVariant P s name ctx = Inr (DefaultVariant f, False))
     \<and> (find (\<lambda>v. Variant.Name v = DefaultVariant f) (Variants f) = Some v \<and>
          (Variant.Conditions v = [] \<or>
           evaluateAll P (Variant.Conditions v) ctx = (True, None)) \<longrightarrow>
            Store_GetVariant P s name ctx = Inr (DefaultVariant f, True))
     \<and> (find (\<lambda>v. Variant.Name v = DefaultVariant f) (Variants f) = Some v \<and>
          Variant.Conditions v \<noteq> [] \<and>
          evaluateAll P (Variant.Conditions v) ctx = (False, None) \<longrightarrow>
            Store_GetVariant P s name ctx = Inr (DefaultVariant f, False))
     \<and> (find (\<lambda>v. Variant.Name v = DefaultVariant f) (Variants f) = Some v \<and>
          Variant.Conditions v \<noteq> [] \<and>
          evaluateAll P (Variant.Conditions v) ctx = (m, Some e) \<longrightarrow>
            Store_GetVariant P s name ctx = Inr ([], False) \<and>
            GetVariantWithError P s name ctx = Inr ([], False, Some e))
     \<and> (find (\<lambda>v. Variant.Name v = DefaultVariant f) (Variants f) = None
          \<or> (\<exists>w. find (\<lambda>v. Variant.Name v = DefaultVariant f) (Variants f) = Some w \<and>
                (Variant.Conditions w = []
                 \<or> evaluateAll P (Variant.Conditions w) ctx = (True, None)
                 \<or> Variant.Conditions w \<noteq> [] \<and>
                    evaluateAll P (Variant.Conditions w) ctx = (False, None)
                 \<or> Variant.Conditions w \<noteq> [] \<and>
                    (\<exists>m' e'. evaluateAll P (Variant.Conditions w) ctx = (m', Some e')))))"
proof -
  have "select_variant (FNVHasher_Hash (Flag.Name f @ '':variant:'' @ Sprint P keyValue)) 0
      (Variants f) = None"
    using assms(7,8) FNVHasher_Hash_small by (intro select_variant_remainder) simp_all
  then have "DefaultRolloutStrategy_GetVariant P (NewDefaultRolloutStrategy None) f ctx
      = (DefaultVariant f, None)"
    using assms(4,6)
    by (simp add: DefaultRolloutStrategy_GetVariant_def NewDefaultRolloutStrategy_def
        HasVariants_def Context_Get_def)
  then have g: "GetVariantWithError P s name ctx =
      Inr (find_variant P (Variants f) (DefaultVariant f) ctx (DefaultVariant f))"
    using assms(1-5)
    by (simp add: GetVariantWithError_def GetFlag_def HasVariants_def)
  have n: "Variant.Name v = DefaultVariant f"
    if "find (\<lambda>v. Variant.Name v = DefaultVariant f) (Variants f) = Some v"
    using that by (auto simp add: find_Some_iff)
  have cases_all: "find (\<lambda>v. Variant.Name v = DefaultVariant f) (Variants f) = None
          \<or> (\<exists>w. find (\<lambda>v. Variant.Name v = DefaultVariant f) (Variants f) = Some w \<and>
                (Variant.Conditions w = []
                 \<or> evaluateAll P (Variant.Conditions w) ctx = (True, None)
                 \<or> Variant.Conditions w \<noteq> [] \<and>
                    evaluateAll P (Variant.Conditions w) ctx = (False, None)
                 \<or> Variant.Conditions w \<noteq> [] \<and>
                    (\<exists>m' e'. evaluateAll P (Variant.Conditions w) ctx = (m', Some e'))))"
  proof (cases "find (\<lambda>v. Variant.Name v = DefaultVariant f) (Variants f)")
    case None
    then show ?thesis by simp
  next
    case (Some w)
    obtain r eo where r: "evaluateAll P (Variant.Conditions w) ctx = (r, eo)"
      by (cases "evaluateAll P (Variant.Conditions w) ctx")
    show ?thesis
      using Some r by (cases eo; cases r; cases "Variant.Conditions w = []") auto
  qed
  have main: "(find (\<lambda>v. Variant.Name v = DefaultVariant f) (Variants f) = None \<longrightarrow>
            Store_GetVariant P s name ctx = Inr (DefaultVariant f, False))
     \<and> (find (\<lambda>v. Variant.Name v = DefaultVariant f) (Variants f) = Some v \<and>
          (Variant.Conditions v = [] \<or>
           evaluateAll P (Variant.Conditions v) ctx = (True, None)) \<longrightarrow>
            Store_GetVariant P s name ctx = Inr (DefaultVariant f, True))
     \<and> (find (\<lambda>v. Variant.Name v = DefaultVariant f) (Variants f) = Some v \<and>
          Variant.Conditions v \<noteq> [] \<and>
          evaluateAll P (Variant.Conditions v) ctx = (False, None) \<longrightarrow>
            Store_GetVariant P s name ctx = Inr (DefaultVariant f, False))
     \<and> (find (\<lambda>v. Variant.Name v = DefaultVariant f) (Variants f) = Some v \<and>
          Variant.Conditions v \<noteq> [] \<and>
          evaluateAll P (Variant.Conditions v) ctx = (m, Some e) \<longrightarrow>
            Store_GetVariant P s name ctx = Inr ([], False) \<and>
            GetVariantWithError P s name ctx = Inr ([], False, Some e))"
    using n by (auto simp add: Store_GetVariant_def g find_variant_find)
  show ?thesis
    using main cases_all by blast
qed

theorem GetVariant_unallocated_remainder_witness:
  "Store_GetVariant sample_platform
     (ab_store\<lparr>flags := (flags ab_store)(''ab_test'' \<mapsto> ab_flag\<lparr>DefaultVariant := ''none''\<rparr>)\<rparr>)
     ''ab_test'' (user_ctx ''3'') = Inr (''none'', False)
   \<and> Store_GetVariant sample_platform ab_store ''ab_test'' (user_ctx ''3'')
       = Inr (''control'', True)
   \<and> Store_GetVariant sample_platform
     (ab_store\<lparr>flags := (flags ab_store)(''ab_test'' \<mapsto> ab_flag\<lparr>Variants :=
        [\<lparr>Variant.Name = ''control'', Weight = 50,
          Variant.Conditions = [plan_is_premium]\<rparr>,
         \<lparr>Variant.Name = ''variation_a'', Weight = 25, Variant.Conditions = []\<rparr>]\<rparr>)\<rparr>)
     ''ab_test'' (user_ctx ''3'') = Inr (''control'', False)
   \<and> Store_GetVariant sample_platform
     (ab_store\<lparr>flags := (flags ab_store)(''ab_test'' \<mapsto> ab_flag\<lparr>Variants :=
        [\<lparr>Variant.Name = ''control'', Weight = 50,
          Variant.Conditions = [\<lparr>Attribute = ''user_id'', Operator = OperatorRegex,
                                  Value = VString ''('', Negate = False\<rparr>]\<rparr>,
         \<lparr>Variant.Name = ''variation_a'', Weight = 25, Variant.Conditions = []\<rparr>]\<rparr>)\<rparr>)
     ''ab_test'' (user_ctx ''3'') = Inr ([], False)"
proof -
  let ?f1 = "ab_flag\<lparr>DefaultVariant := ''none''\<rparr>"
  let ?c = "\<lparr>Variant.Name = ''control'', Weight = 50, Variant.Conditions = []\<rparr> :: int Variant"
  let ?cp = "\<lparr>Variant.Name = ''control'', Weight = 50,
      Variant.Conditions = [plan_is_premium]\<rparr>"
  let ?cr = "\<lparr>Variant.Name = ''control'', Weight = 50,
      Variant.Conditions = [\<lparr>Attribute = ''user_id'', Operator = OperatorRegex,
                              Value = VString ''('', Negate = False\<rparr>]\<rparr> :: int Variant"
  let ?a = "\<lparr>Variant.Name = ''variation_a'', Weight = 25, Variant.Conditions = []\<rparr> :: int Variant"
  let ?f3 = "ab_flag\<lparr>Variants := [?cp, ?a]\<rparr>"
  let ?f4 = "ab_flag\<lparr>Variants := [?cr, ?a]\<rparr>"
  let ?st = "\<lambda>f. ab_store\<lparr>flags := (flags ab_store)(''ab_test'' \<mapsto> f)\<rparr>"
  have 1: "flags (?st g) ''ab_test'' = Some g" for g by simp
  have 2: "rolloutStrategy (?st g) = DefaultStrategy (NewDefaultRolloutStrategy None)" for g
    by (simp add: ab_store_fields)
  have 3: "Enabled ?f1" "Enabled ab_flag" "Enabled ?f3" "Enabled ?f4"
    by (simp_all add: ab_flag_def)
  have 4: "Variants ?f1 \<noteq> []" "Variants ab_flag \<noteq> []" "Variants ?f3 \<noteq> []"
    "Variants ?f4 \<noteq> []"
    by (simp_all add: ab_flag_def)
  have 5: "evaluateAll sample_platform (Flag.Conditions ?f1) (user_ctx ''3'') = (True, None)"
    "evaluateAll sample_platform (Flag.Conditions ab_flag) (user_ctx ''3'') = (True, None)"
    "evaluateAll sample_platform (Flag.Conditions ?f3) (user_ctx ''3'') = (True, None)"
    "evaluateAll sample_platform (Flag.Conditions ?f4) (user_ctx ''3'') = (True, None)"
    by (simp_all add: ab_flag_def)
  have 6: "user_ctx ''3'' (GetRolloutKey ?f1) = Some (VString ''3'')"
    "user_ctx ''3'' (GetRolloutKey ab_flag) = Some (VString ''3'')"
    "user_ctx ''3'' (GetRolloutKey ?f3) = Some (VString ''3'')"
    "user_ctx ''3'' (GetRolloutKey ?f4) = Some (VString ''3'')"
    by (simp_all add: ab_flag_def GetRolloutKey_def user_ctx_def)
  have 7: "list_all (\<lambda>v. 0 \<le> Weight v) (Variants ?f1)"
    "list_all (\<lambda>v. 0 \<le> Weight v) (Variants ab_flag)"
    "list_all (\<lambda>v. 0 \<le> Weight v) (Variants ?f3)"
    "list_all (\<lambda>v. 0 \<le> Weight v) (Variants ?f4)"
    by (simp_all add: ab_flag_def)
  have 8: "sum_list (map Weight (Variants ?f1))
      \<le> FNVHasher_Hash (Flag.Name ?f1 @ '':variant:'' @ Sprint sample_platform (VString ''3''))"
    "sum_list (map Weight (Variants ab_flag))
      \<le> FNVHasher_Hash (Flag.Name ab_flag @ '':variant:'' @ Sprint sample_platform (VString ''3''))"
    "sum_list (map Weight (Variants ?f3))
      \<le> FNVHasher_Hash (Flag.Name ?f3 @ '':variant:'' @ Sprint sample_platform (VString ''3''))"
    "sum_list (map Weight (Variants ?f4))
      \<le> FNVHasher_Hash (Flag.Name ?f4 @ '':variant:'' @ Sprint sample_platform (VString ''3''))"
    by (simp_all add: ab_flag_def hash_ab_test_3)
  have f1: "find (\<lambda>v. Variant.Name v = DefaultVariant ?f1) (Variants ?f1) = None"
    by (simp add: ab_flag_def)
  have f2: "find (\<lambda>v. Variant.Name v = DefaultVariant ab_flag) (Variants ab_flag) = Some ?c"
    "Variant.Conditions ?c = []"
    by (simp_all add: ab_flag_def)
  have f3: "find (\<lambda>v. Variant.Name v = DefaultVariant ?f3) (Variants ?f3) = Some ?cp"
    "Variant.Conditions ?cp \<noteq> []"
    "evaluateAll sample_platform (Variant.Conditions ?cp) (user_ctx ''3'') = (False, None)"
    by (simp_all add: ab_flag_def evaluate_def plan_is_premium_def Condition_Validate_def
        IsValid_def Operator_defs Context_Get_def user_ctx_def applyNegate_def)
  have f4: "find (\<lambda>v. Variant.Name v = DefaultVariant ?f4) (Variants ?f4) = Some ?cr"
    "Variant.Conditions ?cr \<noteq> []"
    "evaluateAll sample_platform (Variant.Conditions ?cr) (user_ctx ''3'')
       = (False, Some (ErrRegexp ''missing closing )''))"
    by (simp_all add: ab_flag_def evaluate_def Condition_Validate_def IsValid_def
        Operator_defs Context_Get_def user_ctx_def evaluateOperator_def evaluateRegex_def
        sample_platform_def)
  have r1: "Store_GetVariant sample_platform (?st ?f1) ''ab_test'' (user_ctx ''3'')
      = Inr (DefaultVariant ?f1, False)"
    using
      GetVariant_unallocated_remainder [of "?st ?f1" "''ab_test''" ?f1 sample_platform
        "user_ctx ''3''" "VString ''3''" ?c False ErrFlagNotFound,
        OF 1 2 3(1) 4(1) 5(1) 6(1) 7(1) 8(1)] f1
    by blast
  have r2: "Store_GetVariant sample_platform ab_store ''ab_test'' (user_ctx ''3'')
      = Inr (DefaultVariant ab_flag, True)"
    using
      GetVariant_unallocated_remainder [of ab_store "''ab_test''" ab_flag sample_platform
        "user_ctx ''3''" "VString ''3''" ?c False ErrFlagNotFound,
        OF ab_store_fields(1) ab_store_fields(2) 3(2) 4(2) 5(2) 6(2) 7(2) 8(2)] f2
    by blast
  have r3: "Store_GetVariant sample_platform (?st ?f3) ''ab_test'' (user_ctx ''3'')
      = Inr (DefaultVariant ?f3, False)"
    using
      GetVariant_unallocated_remainder [of "?st ?f3" "''ab_test''" ?f3 sample_platform
        "user_ctx ''3''" "VString ''3''" ?cp False ErrFlagNotFound,
        OF 1 2 3(3) 4(3) 5(3) 6(3) 7(3) 8(3)] f3
    by blast
  have r4: "Store_GetVariant sample_platform (?st ?f4) ''ab_test'' (user_ctx ''3'')
      = Inr ([], False)"
    using
      GetVariant_unallocated_remainder [of "?st ?f4" "''ab_test''" ?f4 sample_platform
        "user_ctx ''3''" "VString ''3''" ?cr False "ErrRegexp ''missing closing )''",
        OF 1 2 3(4) 4(4) 5(4) 6(4) 7(4) 8(4)] f4
    by blast
  have d: "DefaultVariant ?f1 = ''none''" "DefaultVariant ab_flag = ''control''"
    "DefaultVariant ?f3 = ''control''"
    by (simp_all add: ab_flag_def)
  show ?thesis
    using r1 r2 r3 r4 by (simp only: d simp_thms)
qed

text \<open>The claim C7 as it is stated fails: the variants \<open>control\<close> (50) and
  \<open>variation_a\<close> (25) sum to 75, the user \<open>3\<close> hashes to 83, and the default variant
  is \<open>control\<close>; the store returns \<open>control\<close> with \<open>enabled = true\<close>.\<close>

theorem GetVariant_remainder_enabled:
  "flags ab_store ''ab_test'' = Some ab_flag
   \<and> Enabled ab_flag
   \<and> sum_list (map Weight (Variants ab_flag)) = 75
   \<and> FNVHasher_Hash (Flag.Name ab_flag @ '':variant:'' @ Sprint sample_platform (VString ''3''))
       = 83
   \<and> user_ctx ''3'' (GetRolloutKey ab_flag) = Some (VString ''3'')
   \<and> evaluateAll sample_platform (Flag.Conditions ab_flag) (user_ctx ''3'') = (True, None)
   \<and> Store_GetVariant sample_platform ab_store ''ab_test'' (user_ctx ''3'')
       = Inr (''control'', True)
   \<and> Store_GetVariant sample_platform ab_store ''ab_test'' (user_ctx ''3'')
       \<noteq> Inr (DefaultVariant ab_flag, False)"
proof -
  have g: "Store_GetVariant sample_platform ab_store ''ab_test'' (user_ctx ''3'')
      = Inr (''control'', True)"
    by (simp add: Store_GetVariant_def GetVariantWithError_def GetFlag_def ab_store_fields
        ab_flag_def HasVariants_def DefaultRolloutStrategy_GetVariant_def
        GetRolloutKey_def Context_Get_def user_ctx_def NewDefaultRolloutStrategy_def
        hash_ab_test_3 wrap64_def)
  show ?thesis
    using g ab_store_fields(1) hash_ab_test_3
    by (simp add: ab_flag_def GetRolloutKey_def user_ctx_def)
qed

subsection \<open>The switchback strategy\<close>

lemma switchback_30_fields:
  "intervalMinutes (switchback_30 T0 swap t) = 30"
  "startTime (switchback_30 T0 swap t) = T0"
  "swapDaily (switchback_30 T0 swap t) = swap"
  "timeProvider (switchback_30 T0 swap t) k = t"
  by (simp_all add: switchback_30_def NewSwitchbackRolloutStrategy_def)

lemma Time_Sub_small: "0 \<le> d \<Longrightarrow> d < 2 ^ 63 \<Longrightarrow> Time_Sub (T0 + d) T0 = d"
  by (simp add: Time_Sub_def minDuration_def maxDuration_def)

lemma interval_30:
  "0 \<le> d \<Longrightarrow> d < 2 ^ 63 \<Longrightarrow>
   GetCurrentInterval (switchback_30 T0 swap (T0 + d)) k = Inr (wrap64 (d div (30 * Minute)))"
  by (simp add: GetCurrentInterval_def switchback_30_fields Time_Sub_small Let_def
      Minute_def wrap64_def go_quo_def)

lemma day_30:
  "0 \<le> d \<Longrightarrow> d < 2 ^ 63 \<Longrightarrow>
   GetCurrentDay (switchback_30 T0 swap (T0 + d)) k = wrap64 (d div (24 * Hour))"
  by (simp add: GetCurrentDay_def switchback_30_fields Time_Sub_small Let_def
      Hour_def go_quo_def)

lemma go_quo_nonneg:
  assumes "0 \<le> a" "a < 2 ^ 63" "0 < b"
  shows "go_quo a b = a div b \<and> 0 \<le> a div b"
proof -
  have "a div b \<le> a div 1" using assms by (intro zdiv_mono2) simp_all
  then have "a div b \<le> a" by simp
  then have "a div b < 2 ^ 63" using assms by linarith
  moreover have "0 \<le> a div b" using assms by (simp add: pos_imp_zdiv_nonneg_iff)
  ultimately show ?thesis using assms by (simp add: go_quo_def wrap64_id)
qed

lemma Time_Sub_nonneg: "u \<le> t \<Longrightarrow> 0 \<le> Time_Sub t u \<and> Time_Sub t u < 2 ^ 63"
  by (simp add: Time_Sub_def minDuration_def maxDuration_def)

lemma go_rem_range: "0 \<le> a \<Longrightarrow> 0 < n \<Longrightarrow> 0 \<le> go_rem a n \<and> go_rem a n < n"
  by (simp add: go_rem_def)

lemma switchback_no_error:
  "SwitchbackRolloutStrategy_GetVariant s flag ctx \<noteq> Inr (name, Some e)"
  by (simp add: SwitchbackRolloutStrategy_GetVariant_def Let_def split: sum.splits)

text \<open>
  C8. A switchback strategy with an interval of 30 minutes and the start time \<open>T0\<close>, and
  a flag with the two variants \<open>a\<close> and \<open>b\<close>. Without the daily swap, \<open>GetVariant\<close>
  returns \<open>a\<close> at \<open>T0\<close>, \<open>b\<close> 30 minutes later and \<open>a\<close> again 60 minutes later, and
  \<open>a\<close> after 24 hours; with the daily swap it returns \<open>b\<close> after 24 hours.
\<close>

theorem switchback_alternates:
  "SwitchbackRolloutStrategy_GetVariant (switchback_30 T0 False T0)
      (flag\<lparr>Variants := [a, b]\<rparr>) ctx = Inr (Variant.Name a, None)
   \<and> SwitchbackRolloutStrategy_GetVariant (switchback_30 T0 False (T0 + 30 * Minute))
      (flag\<lparr>Variants := [a, b]\<rparr>) ctx = Inr (Variant.Name b, None)
   \<and> SwitchbackRolloutStrategy_GetVariant (switchback_30 T0 False (T0 + 60 * Minute))
      (flag\<lparr>Variants := [a, b]\<rparr>) ctx = Inr (Variant.Name a, None)
   \<and> SwitchbackRolloutStrategy_GetVariant (switchback_30 T0 False (T0 + 24 * Hour))
      (flag\<lparr>Variants := [a, b]\<rparr>) ctx = Inr (Variant.Name a, None)
   \<and> SwitchbackRolloutStrategy_GetVariant (switchback_30 T0 True (T0 + 24 * Hour))
      (flag\<lparr>Variants := [a, b]\<rparr>) ctx = Inr (Variant.Name b, None)"
proof -
  have i0: "GetCurrentInterval (switchback_30 T0 swap T0) k = Inr 0" for swap k
    using interval_30 [of 0 T0 swap k] by (simp add: wrap64_def)
  have i1: "GetCurrentInterval (switchback_30 T0 swap (T0 + 30 * Minute)) k = Inr 1" for swap k
    by (subst interval_30) (simp_all add: wrap64_def Minute_def)
  have i2: "GetCurrentInterval (switchback_30 T0 swap (T0 + 60 * Minute)) k = Inr 2" for swap k
    by (subst interval_30) (simp_all add: wrap64_def Minute_def)
  have i48: "GetCurrentInterval (switchback_30 T0 swap (T0 + 24 * Hour)) k = Inr 48" for swap k
    by (subst interval_30) (simp_all add: wrap64_def Minute_def Hour_def)
  have d0: "GetCurrentDay (switchback_30 T0 swap T0) k = 0" for swap k
    using day_30 [of 0 T0 swap k] by (simp add: wrap64_def)
  have d1: "GetCurrentDay (switchback_30 T0 swap (T0 + 30 * Minute)) k = 0" for swap k
    by (subst day_30) (simp_all add: wrap64_def Minute_def Hour_def)
  have d2: "GetCurrentDay (switchback_30 T0 swap (T0 + 60 * Minute)) k = 0" for swap k
    by (subst day_30) (simp_all add: wrap64_def Minute_def Hour_def)
  have d48: "GetCurrentDay (switchback_30 T0 swap (T0 + 24 * Hour)) k = 1" for swap k
    by (subst day_30) (simp_all add: wrap64_def Hour_def)
  show ?thesis
    unfolding SwitchbackRolloutStrategy_GetVariant_def i0 i1 i2 i48 d0 d1 d2 d48
    by (simp add: HasVariants_def go_rem_def switchback_30_fields wrap64_def)
qed

theorem switchback_alternates_witness:
  "SwitchbackRolloutStrategy_GetVariant (switchback_30 sample_start False sample_start)
      ab_flag (user_ctx ''3'') = Inr (''control'', None)
   \<and> SwitchbackRolloutStrategy_GetVariant
      (switchback_30 sample_start False (sample_start + 30 * Minute))
      ab_flag (user_ctx ''3'') = Inr (''variation_a'', None)
   \<and> SwitchbackRolloutStrategy_GetVariant
      (switchback_30 sample_start False (sample_start + 60 * Minute))
      ab_flag (user_ctx ''3'') = Inr (''control'', None)
   \<and> SwitchbackRolloutStrategy_GetVariant
      (switchback_30 sample_start True (sample_start + 24 * Hour))
      ab_flag (user_ctx ''3'') = Inr (''variation_a'', None)"
proof -
  have "ab_flag\<lparr>Variants :=
      [\<lparr>Variant.Name = ''control'', Weight = 50, Variant.Conditions = []\<rparr>,
       \<lparr>Variant.Name = ''variation_a'', Weight = 25, Variant.Conditions = []\<rparr>]\<rparr> = ab_flag"
    by (simp add: ab_flag_def)
  then show ?thesis
    using switchback_alternates [where ?T0.0 = sample_start and flag = ab_flag
        and a = "\<lparr>Variant.Name = ''control'', Weight = 50, Variant.Conditions = []\<rparr>"
        and b = "\<lparr>Variant.Name = ''variation_a'', Weight = 25, Variant.Conditions = []\<rparr>"
        and ctx = "user_ctx ''3''"]
    by simp
qed

text \<open>
  C9, as the code has it. The strategy has an interval that is positive and whose length
  in nanoseconds is representable, the time provider reports a time that is not before
  the start time, and the flag has variants. Then the current interval is an integer that
  is not negative, the index computed from it is in the range of the variants, and
  \<open>GetVariant\<close> returns the name of the variant at that index, with no error and no panic.
  The code has no check of the time against the start time, and \<open>GetVariant\<close> of this
  strategy returns an error for no input at all.
\<close>

theorem switchback_index_in_range:
  assumes interval: "0 < intervalMinutes s" "intervalMinutes s * Minute < 2 ^ 63"
    and now: "\<forall>k. startTime s \<le> timeProvider s k"
    and vs: "Variants flag \<noteq> []" "representable_length (Variants flag)"
  shows "(\<exists>intervalNum idx.
           GetCurrentInterval s 0 = Inr intervalNum \<and> 0 \<le> intervalNum \<and>
           idx < length (Variants flag) \<and>
           SwitchbackRolloutStrategy_GetVariant s flag ctx =
             Inr (Variant.Name (Variants flag ! idx), None))
     \<and> SwitchbackRolloutStrategy_GetVariant s' flag' ctx' \<noteq> Inr (name, Some e)"
proof -
  define n where "n = int (length (Variants flag))"
  have n: "0 < n" "n < 2 ^ 63"
    using vs by (simp_all add: n_def representable_length_def)
  have dur: "wrap64 (intervalMinutes s * Minute) = intervalMinutes s * Minute"
    "0 < intervalMinutes s * Minute"
    using interval by (simp_all add: wrap64_id Minute_def)
  define e0 where "e0 = Time_Sub (timeProvider s 0) (startTime s)"
  have e0: "0 \<le> e0" "e0 < 2 ^ 63"
    using now Time_Sub_nonneg [of "startTime s" "timeProvider s 0"] by (simp_all add: e0_def)
  define i where "i = e0 div (intervalMinutes s * Minute)"
  have nz: "intervalMinutes s \<noteq> 0" "Minute \<noteq> 0"
    using interval by (simp_all add: Minute_def)
  have gi: "GetCurrentInterval s 0 = Inr i" and i0: "0 \<le> i"
    using go_quo_nonneg [OF e0 dur(2)] dur nz
    by (simp_all add: GetCurrentInterval_def Let_def e0_def i_def)
  define r where "r = go_rem i n"
  have r: "0 \<le> r" "r < n"
    using go_rem_range [OF i0 n(1)] by (simp_all add: r_def)
  define r' where "r' = (if swapDaily s \<and> go_rem (GetCurrentDay s 1) 2 = 1
       then wrap64 (wrap64 (n - 1) - r) else r)"
  have "wrap64 (wrap64 (n - 1) - r) = n - 1 - r"
    using n r by (simp add: wrap64_id)
  then have r': "0 \<le> r'" "r' < n"
    using r by (simp_all add: r'_def)
  have "SwitchbackRolloutStrategy_GetVariant s flag ctx =
      (if r' < 0 \<or> n \<le> r' then Inl (PanicIndexOutOfRange r')
       else Inr (Variant.Name (Variants flag ! nat r'), None))"
    using vs(1)
    by (simp add: SwitchbackRolloutStrategy_GetVariant_def gi HasVariants_def Let_def
        r'_def r_def n_def)
  then have "SwitchbackRolloutStrategy_GetVariant s flag ctx =
      Inr (Variant.Name (Variants flag ! nat r'), None)"
    using r' by simp
  moreover have "nat r' < length (Variants flag)"
    using r' by (simp add: n_def)
  ultimately have "\<exists>intervalNum idx.
           GetCurrentInterval s 0 = Inr intervalNum \<and> 0 \<le> intervalNum \<and>
           idx < length (Variants flag) \<and>
           SwitchbackRolloutStrategy_GetVariant s flag ctx =
             Inr (Variant.Name (Variants flag ! idx), None)"
    using gi i0 by blast
  then show ?thesis using switchback_no_error by blast
qed

theorem switchback_index_in_range_witness:
  "GetCurrentInterval (switchback_30 sample_start True (sample_start + 24 * Hour)) 0 = Inr 48
   \<and> (\<exists>idx. idx < length (Variants ab_flag) \<and>
        SwitchbackRolloutStrategy_GetVariant
          (switchback_30 sample_start True (sample_start + 24 * Hour)) ab_flag (user_ctx ''3'')
        = Inr (Variant.Name (Variants ab_flag ! idx), None))"
proof -
  let ?s = "switchback_30 sample_start True (sample_start + 24 * Hour)"
  have 1: "0 < intervalMinutes ?s" "intervalMinutes ?s * Minute < 2 ^ 63"
    by (simp_all add: switchback_30_fields Minute_def)
  have 2: "\<forall>k. startTime ?s \<le> timeProvider ?s k"
    by (simp add: switchback_30_fields Hour_def)
  have 3: "Variants ab_flag \<noteq> []" "representable_length (Variants ab_flag)"
    by (simp_all add: ab_flag_def representable_length_def)
  have 4: "GetCurrentInterval ?s 0 = Inr 48"
    by (subst interval_30) (simp_all add: wrap64_def Minute_def Hour_def)
  show ?thesis
    using switchback_index_in_range [OF 1 2 3, of "user_ctx ''3''" ?s ab_flag
        "user_ctx ''3''" "[]" ErrFlagNotFound] 4
    by auto
qed

text \<open>The claim C9 as it is stated fails: one minute before the start time
  \<open>GetVariant\<close> raises nothing and returns the first variant, and 30 minutes before the
  start time the index is \<open>-1\<close>, on which the slice access panics.\<close>

theorem switchback_before_start:
  "timeProvider (switchback_30 sample_start False (sample_start - Minute)) 0
     < startTime (switchback_30 sample_start False (sample_start - Minute))
   \<and> SwitchbackRolloutStrategy_GetVariant
        (switchback_30 sample_start False (sample_start - Minute)) ab_flag (user_ctx ''3'')
       = Inr (''control'', None)
   \<and> SwitchbackRolloutStrategy_GetVariant
        (switchback_30 sample_start False (sample_start - 30 * Minute)) ab_flag (user_ctx ''3'')
       = Inl (PanicIndexOutOfRange (- 1))"
  by (simp add: switchback_30_fields SwitchbackRolloutStrategy_GetVariant_def
      GetCurrentInterval_def GetCurrentDay_def Time_Sub_def minDuration_def maxDuration_def
      Minute_def Hour_def sample_start_def go_quo_def go_rem_def wrap64_def HasVariants_def
      ab_flag_def Let_def)

subsection \<open>The invariant of the registry\<close>

lemma NewStore_flags: "flags (NewStore time_Now now opts) = Map.empty"
proof -
  have "flags (foldl (apply_StoreOption time_Now now) s0 opts) = flags s0" for s0 :: "'a Store"
  proof (induction opts arbitrary: s0)
    case Nil
    show ?case by simp
  next
    case (Cons opt opts)
    show ?case by (cases opt) (simp add: Cons.IH)
  qed
  then show ?thesis by (simp add: NewStore_def)
qed

lemma registry_valid_AddFlag:
  assumes "registry_valid s" "slice_fits f"
  shows "registry_valid (fst (AddFlag s f))"
proof (cases "Flag_Validate f")
  case None
  have v: "valid_flag f"
    using None assms(2) Flag_Validate_valid by blast
  have "fst (AddFlag s f) = s\<lparr>flags := (flags s)(Flag.Name f \<mapsto> f)\<rparr>"
    using None by (simp add: AddFlag_def)
  then show ?thesis
    using v assms(1) by (auto simp add: registry_valid_def split: if_splits)
next
  case (Some e)
  with assms(1) show ?thesis by (simp add: AddFlag_def)
qed

lemma registry_valid_AddFlags:
  "registry_valid s \<Longrightarrow> list_all slice_fits fs \<Longrightarrow> registry_valid (fst (AddFlags s fs))"
proof (induction fs arbitrary: s)
  case Nil
  then show ?case by simp
next
  case (Cons f fs)
  have v: "registry_valid (fst (AddFlag s f))"
    using Cons.prems by (intro registry_valid_AddFlag) simp_all
  show ?case
  proof (cases "AddFlag s f")
    case (Pair s' eo)
    show ?thesis
    proof (cases eo)
      case None
      have "registry_valid (fst (AddFlags s' fs))"
        using v Pair Cons.prems(2) by (intro Cons.IH) simp_all
      with Pair None show ?thesis by simp
    next
      case (Some e)
      with Pair v show ?thesis by simp
    qed
  qed
qed

lemma registry_valid_perform:
  assumes "registry_valid s" "list_all slice_fits (operation_flags op)"
  shows "registry_valid (perform s op)"
proof (cases op)
  case (OpAddFlag f)
  with assms show ?thesis by (simp add: registry_valid_AddFlag)
next
  case (OpAddFlags fs)
  with assms show ?thesis by (simp add: registry_valid_AddFlags)
next
  case (OpRemoveFlag n)
  with assms(1) show ?thesis by (simp add: RemoveFlag_def registry_valid_def)
next
  case OpClear
  then show ?thesis by (simp add: Clear_def registry_valid_def)
qed (use assms(1) in simp_all)

lemma registry_valid_foldl:
  "registry_valid s \<Longrightarrow> operations_fit ops \<Longrightarrow> registry_valid (foldl perform s ops)"
proof (induction ops arbitrary: s)
  case Nil
  then show ?case by simp
next
  case (Cons op ops)
  have "registry_valid (perform s op)"
    using Cons.prems by (intro registry_valid_perform) (simp_all add: operations_fit_def)
  then show ?case
    using Cons.prems(2) by (simp add: Cons.IH operations_fit_def)
qed

text \<open>
  C10. In every state of the registry that a sequence of operations reaches from a new
  store, every stored flag is valid: its name is not empty, its rollout is in
  \<open>[0, 100]\<close>, every condition of the flag and of its variants has an attribute that is
  not empty and an operator that is recognised, every weight is in \<open>[0, 100]\<close>, and the
  weights sum to at most 100. The operations are \<open>AddFlag\<close>, \<open>AddFlags\<close>,
  \<open>RemoveFlag\<close> and \<open>Clear\<close>, interleaved with evaluations (\<open>IsEnabled\<close>,
  \<open>GetVariant\<close> and their error-returning forms), and an evaluation leaves the store,
  its flags and its flag map as they were. The variants of the flags that are added are
  slices that fit into memory.
\<close>

theorem registry_validity_invariant:
  assumes "operations_fit ops"
  shows "(\<forall>name f. flags (foldl perform (NewStore time_Now now opts) ops) name = Some f \<longrightarrow>
            Flag.Name f \<noteq> [] \<and> 0 \<le> Rollout f \<and> Rollout f \<le> 100 \<and>
            (\<forall>c\<in>set (Flag.Conditions f). Attribute c \<noteq> [] \<and> IsValid (Operator c)) \<and>
            (\<forall>v\<in>set (Variants f). 0 \<le> Weight v \<and> Weight v \<le> 100 \<and>
               (\<forall>c\<in>set (Variant.Conditions v). Attribute c \<noteq> [] \<and> IsValid (Operator c))) \<and>
            sum_list (map Weight (Variants f)) \<le> 100)
     \<and> perform s (OpIsEnabled name' ctx) = s
     \<and> perform s (OpIsEnabledWithError name' ctx) = s
     \<and> perform s (OpGetVariant name' ctx) = s
     \<and> perform s (OpGetVariantWithError name' ctx) = s"
proof -
  have "registry_valid (NewStore time_Now now opts :: 'a Store)"
    by (simp add: registry_valid_def NewStore_flags)
  then have "registry_valid (foldl perform (NewStore time_Now now opts :: 'a Store) ops)"
    using assms by (rule registry_valid_foldl)
  then show ?thesis
    by (auto simp add: registry_valid_def valid_flag_def valid_variant_def valid_condition_def
        list_all_iff)
qed

theorem registry_validity_invariant_witness:
  "operations_fit
     [OpAddFlag ab_flag, OpAddFlag (rollout_flag\<lparr>Rollout := 150\<rparr>),
      OpGetVariant ''ab_test'' (user_ctx ''3''),
      OpAddFlags [rollout_flag, regex_flag\<lparr>Flag.Name := []\<rparr>],
      OpRemoveFlag ''rollout_flag'']
   \<and> flags (foldl perform (NewStore sample_clock 0 [])
       [OpAddFlag ab_flag, OpAddFlag (rollout_flag\<lparr>Rollout := 150\<rparr>),
        OpGetVariant ''ab_test'' (user_ctx ''3''),
        OpAddFlags [rollout_flag, regex_flag\<lparr>Flag.Name := []\<rparr>],
        OpRemoveFlag ''rollout_flag'']) ''ab_test'' = Some ab_flag
   \<and> Flag.Name ab_flag \<noteq> [] \<and> 0 \<le> Rollout ab_flag \<and> Rollout ab_flag \<le> 100
   \<and> sum_list (map Weight (Variants ab_flag)) \<le> 100
   \<and> perform ab_store (OpGetVariant ''ab_test'' (user_ctx ''3'')) = ab_store"
proof -
  let ?ops = "[OpAddFlag ab_flag, OpAddFlag (rollout_flag\<lparr>Rollout := 150\<rparr>),
      OpGetVariant ''ab_test'' (user_ctx ''3''),
      OpAddFlags [rollout_flag, regex_flag\<lparr>Flag.Name := []\<rparr>],
      OpRemoveFlag ''rollout_flag'']"
  have fit: "operations_fit ?ops"
    by (simp add: operations_fit_def slice_fits_def ab_flag_def rollout_flag_def regex_flag_def)
  have st: "flags (foldl perform (NewStore sample_clock 0 []) ?ops) ''ab_test'' = Some ab_flag"
    by (simp add: NewStore_def AddFlag_def RemoveFlag_def Flag_Validate_def ab_flag_def
        rollout_flag_def regex_flag_def wrap64_def)
  have "\<forall>name f. flags (foldl perform (NewStore sample_clock 0 []) ?ops) name = Some f \<longrightarrow>
      Flag.Name f \<noteq> [] \<and> 0 \<le> Rollout f \<and> Rollout f \<le> 100 \<and>
      (\<forall>c\<in>set (Flag.Conditions f). Attribute c \<noteq> [] \<and> IsValid (Operator c)) \<and>
      (\<forall>v\<in>set (Variants f). 0 \<le> Weight v \<and> Weight v \<le> 100 \<and>
         (\<forall>c\<in>set (Variant.Conditions v). Attribute c \<noteq> [] \<and> IsValid (Operator c))) \<and>
      sum_list (map Weight (Variants f)) \<le> 100"
    using registry_validity_invariant [OF fit, of sample_clock 0 "[]" ab_store "''ab_test''"
        "user_ctx ''3''"]
    by blast
  then have "Flag.Name ab_flag \<noteq> [] \<and> 0 \<le> Rollout ab_flag \<and> Rollout ab_flag \<le> 100
      \<and> sum_list (map Weight (Variants ab_flag)) \<le> 100"
    using st by blast
  then show ?thesis
    using fit st by simp
qed

end
